theory Spec2Isabelle
  imports
    Main
    "HOL-Library.Char_ord"
    "HOL-Library.List_Lexorder"
    "HOL-Library.Multiset"
    "HOL-Library.AList"
begin

section \<open>The sprite sheet generator \<open>generate_spritesheet.py\<close>\<close>

text \<open>
  The script collects the images of a directory, packs them on shelves (rows), pastes
  them into one sheet and writes a JSON atlas. Python integers are \<open>int\<close>; the two
  components of \<open>img.size\<close> are pixel counts and are \<open>nat\<close>; a file name is a
  \<open>string\<close>; the dictionary \<open>positions\<close> is a map, the dictionary \<open>frames\<close>,
  whose order reaches the JSON file, is an association list.
\<close>

subsection \<open>Images\<close>

text \<open>A decoded RGBA image: its \<open>size\<close> (width, height) and its pixel bytes.\<close>

record image =
  img_size :: "nat \<times> nat"
  img_data :: "nat list"

type_synonym entry = "string \<times> image"

subsection \<open>\<open>next_power_of_two\<close>\<close>

text \<open>
  \<^verbatim>\<open>
  def next_power_of_two(n):
      p = 1
      while p < n:
          p <<= 1
      return p
  \<close>
  The loop on an arbitrary \<open>p\<close> need not end (\<open>p = 0\<close> stays \<open>0\<close>), so it is a partial
  function: \<open>None\<close> is a loop that never returns. On Python's unbounded integers
  \<open>p <<= 1\<close> doubles \<open>p\<close>.
\<close>

partial_function (option) npot_loop :: "int \<Rightarrow> int \<Rightarrow> int option" where
  "npot_loop p n = (if p < n then npot_loop (p * 2) n else Some p)"

definition next_power_of_two :: "int \<Rightarrow> int option" where
  "next_power_of_two n = npot_loop 1 n"

subsection \<open>\<open>pack_images\<close>\<close>

text \<open>
  The local variables of \<open>pack_images\<close> that the loop updates: \<open>x\<close>, \<open>y\<close>,
  \<open>row_height\<close>, \<open>positions\<close> and \<open>max_row_w\<close>.
\<close>

record pack_state =
  ps_x :: int
  ps_y :: int
  ps_row_height :: int
  ps_positions :: "string \<rightharpoonup> int \<times> int"
  ps_max_row_w :: int

definition pack_init :: "int \<Rightarrow> pack_state" where
  "pack_init padding =
     \<lparr>ps_x = padding, ps_y = padding, ps_row_height = 0,
      ps_positions = Map.empty, ps_max_row_w = 0\<rparr>"

text \<open>One iteration of \<open>for fname, img in images\<close>, statement by statement.\<close>

definition pack_step :: "int \<Rightarrow> int \<Rightarrow> pack_state \<Rightarrow> entry \<Rightarrow> pack_state" where
  "pack_step max_width padding s e =
     (let fname = fst e;
          w = int (fst (img_size (snd e)));
          h = int (snd (img_size (snd e)));
          s1 = (if ps_x s + w + padding > max_width
                then s\<lparr>ps_y := ps_y s + (ps_row_height s + padding),
                       ps_x := padding,
                       ps_row_height := 0\<rparr>
                else s);
          s2 = s1\<lparr>ps_positions := (ps_positions s1)(fname \<mapsto> (ps_x s1, ps_y s1))\<rparr>;
          s3 = s2\<lparr>ps_x := ps_x s2 + (w + padding)\<rparr>;
          s4 = (if ps_x s3 > ps_max_row_w s3 then s3\<lparr>ps_max_row_w := ps_x s3\<rparr> else s3)
      in (if h > ps_row_height s4 then s4\<lparr>ps_row_height := h\<rparr> else s4))"

text \<open>
  Python's \<open>max(iterable)\<close>: \<open>None\<close> stands for the \<open>ValueError\<close> on an empty
  iterable; \<open>max(iterable, default=d)\<close> returns \<open>d\<close> there.
\<close>

definition py_max :: "int list \<Rightarrow> int option" where
  "py_max xs = (case xs of [] \<Rightarrow> None | x # rest \<Rightarrow> Some (foldl max x rest))"

definition py_max_default :: "int list \<Rightarrow> int \<Rightarrow> int" where
  "py_max_default xs d = (case py_max xs of None \<Rightarrow> d | Some m \<Rightarrow> m)"

definition widths :: "entry list \<Rightarrow> int list" where
  "widths images = map (\<lambda>e. int (fst (img_size (snd e)))) images"

definition pack_images ::
  "entry list \<Rightarrow> int \<Rightarrow> int \<Rightarrow> (string \<rightharpoonup> int \<times> int) \<times> int \<times> int" where
  "pack_images images max_width padding =
     (let s = foldl (pack_step max_width padding) (pack_init padding) images;
          total_height = ps_y s + ps_row_height s + padding;
          total_width = max (ps_max_row_w s) (py_max_default (widths images) 0 + 2 * padding)
      in (ps_positions s, total_width, total_height))"

subsection \<open>Outcomes, JSON documents and the world outside the script\<close>

text \<open>
  What running a piece of the script can do: loop forever, raise an exception that
  nothing catches, or return a value. \<open>KeyError\<close> and \<open>ValueError\<close> are raised by the
  interpreter and the imaging library; \<open>OSError\<close> stands for whatever a write to the
  file system raises.
\<close>

datatype error = KeyError string | ValueError | OSError string

datatype 'a run = Diverges | Raises error | Returns 'a

text \<open>
  The sheet is \<open>Image.new("RGBA", (sheet_w, sheet_h), pad_bg)\<close> followed by the
  \<open>paste\<close> calls in their order; each paste is recorded with its image and its offset.
\<close>

record sheet =
  sheet_size :: "int \<times> int"
  sheet_bg :: "nat \<times> nat \<times> nat \<times> nat"
  sheet_pastes :: "(image \<times> int \<times> int) list"

text \<open>
  A JSON document as \<open>json.dump\<close> receives it. An object keeps the insertion order of
  its keys, as a Python \<open>dict\<close> does. \<open>JFloat m e\<close> is the float \<open>m * 2 ^ e\<close>: the
  pivot \<open>0.5\<close> is \<open>JFloat 1 (- 1)\<close>.
\<close>

datatype json =
    JObject "(string \<times> json) list"
  | JString string
  | JInt int
  | JFloat int int
  | JBool bool

text \<open>
  What the script asks of the file system and of the libraries, and what they answer:
  \<open>os.path.isdir\<close>, \<open>os.listdir\<close> (in whatever order the system gives),
  \<open>Image.open(path).convert("RGBA")\<close>, which returns an image or raises (\<open>Inl\<close>
  carries the exception's text), \<open>sheet.save(path)\<close> and
  \<open>open(path, "w")\<close> with \<open>json.dump\<close>, each of which completes (\<open>None\<close>) or
  raises. Whether a save completes depends on the path, on the format its extension names
  and on the sheet (an empty sheet cannot be encoded), so the answer is a function of both.
\<close>

record env =
  isdir :: "string \<Rightarrow> bool"
  listdir :: "string \<Rightarrow> string list"
  image_open :: "string \<Rightarrow> string + image"
  image_save :: "string \<Rightarrow> sheet \<Rightarrow> error option"
  json_write :: "string \<Rightarrow> json \<Rightarrow> error option"

subsection \<open>\<open>create_sheet\<close>\<close>

text \<open>
  \<open>Image.new\<close> raises \<open>ValueError\<close> when the width or the height is negative.
\<close>

definition image_new :: "int \<times> int \<Rightarrow> nat \<times> nat \<times> nat \<times> nat \<Rightarrow> error + sheet" where
  "image_new size_wh color =
     (if fst size_wh < 0 \<or> snd size_wh < 0 then Inl ValueError
      else Inr \<lparr>sheet_size = size_wh, sheet_bg = color, sheet_pastes = []\<rparr>)"

text \<open>The loop \<open>for fname, img in images: x, y = positions[fname]; sheet.paste(...)\<close>.\<close>

fun paste_all :: "entry list \<Rightarrow> (string \<rightharpoonup> int \<times> int) \<Rightarrow> sheet \<Rightarrow> error + sheet" where
  "paste_all [] positions sh = Inr sh"
| "paste_all (e # rest) positions sh =
     (case positions (fst e) of
        None \<Rightarrow> Inl (KeyError (fst e))
      | Some xy \<Rightarrow> paste_all rest positions (sh\<lparr>sheet_pastes := sheet_pastes sh @ [(snd e, xy)]\<rparr>))"

text \<open>
  \<open>create_sheet\<close> returns the final \<open>(sheet_w, sheet_h)\<close>; its effect, the file that
  \<open>sheet.save\<close> wrote at \<open>output_image_path\<close>, is returned with them. The first
  argument is the world the script runs in.
\<close>

definition create_sheet ::
  "env \<Rightarrow> entry list \<Rightarrow> (string \<rightharpoonup> int \<times> int) \<Rightarrow> int \<Rightarrow> int \<Rightarrow> string
     \<Rightarrow> nat \<times> nat \<times> nat \<times> nat \<Rightarrow> bool \<Rightarrow> ((string \<times> sheet) \<times> int \<times> int) run" where
  "create_sheet ev images positions sheet_w sheet_h output_image_path pad_bg pot =
     (case (if pot
            then (case next_power_of_two sheet_w of
                    None \<Rightarrow> None
                  | Some w' \<Rightarrow>
                      (case next_power_of_two sheet_h of
                         None \<Rightarrow> None
                       | Some h' \<Rightarrow> Some (w', h')))
            else Some (sheet_w, sheet_h)) of
        None \<Rightarrow> Diverges
      | Some (sheet_w', sheet_h') \<Rightarrow>
          (case image_new (sheet_w', sheet_h') pad_bg of
             Inl e \<Rightarrow> Raises e
           | Inr sheet0 \<Rightarrow>
               (case paste_all images positions sheet0 of
                  Inl e \<Rightarrow> Raises e
                | Inr sh \<Rightarrow>
                    (case image_save ev output_image_path sh of
                       Some e \<Rightarrow> Raises e
                     | None \<Rightarrow> Returns ((output_image_path, sh), sheet_w', sheet_h')))))"

subsection \<open>Path functions of the standard library (POSIX)\<close>

text \<open>\<open>s.rfind(c)\<close>: the last index of \<open>c\<close>, or \<open>-1\<close>.\<close>

definition rfind :: "char \<Rightarrow> string \<Rightarrow> int" where
  "rfind c s =
     (if c \<in> set s then int (length s) - 1 - int (length (takeWhile (\<lambda>d. d \<noteq> c) (rev s)))
      else - 1)"

text \<open>
  \<open>os.path.splitext\<close>: the extension starts at the last dot of the last path component,
  unless only dots precede it there.
\<close>

definition splitext :: "string \<Rightarrow> string \<times> string" where
  "splitext p =
     (let sepIndex = rfind (CHR ''/'') p;
          dotIndex = rfind (CHR ''.'') p
      in if dotIndex > sepIndex \<and>
            list_ex (\<lambda>c. c \<noteq> CHR ''.'')
              (take (nat (dotIndex - (sepIndex + 1))) (drop (nat (sepIndex + 1)) p))
         then (take (nat dotIndex) p, drop (nat dotIndex) p)
         else (p, []))"

definition basename :: "string \<Rightarrow> string" where
  "basename p = drop (nat (rfind (CHR ''/'') p + 1)) p"

definition os_path_join :: "string \<Rightarrow> string \<Rightarrow> string" where
  "os_path_join a b =
     (if b \<noteq> [] \<and> hd b = CHR ''/'' then b
      else if a = [] \<or> last a = CHR ''/'' then a @ b
      else a @ ''/'' @ b)"

subsection \<open>\<open>build_json\<close>\<close>

definition frame_record :: "int \<Rightarrow> int \<Rightarrow> int \<Rightarrow> int \<Rightarrow> json" where
  "frame_record x y w h =
     JObject
       [(''frame'', JObject [(''x'', JInt x), (''y'', JInt y), (''w'', JInt w), (''h'', JInt h)]),
        (''rotated'', JBool False),
        (''trimmed'', JBool False),
        (''spriteSourceSize'',
           JObject [(''x'', JInt 0), (''y'', JInt 0), (''w'', JInt w), (''h'', JInt h)]),
        (''sourceSize'', JObject [(''w'', JInt w), (''h'', JInt h)]),
        (''pivot'', JObject [(''x'', JFloat 1 (- 1)), (''y'', JFloat 1 (- 1))])]"

text \<open>
  The loop that fills \<open>frames\<close>. \<open>frames[name] = ...\<close> on a dictionary is
  \<open>AList.update\<close>: a new key goes to the end, a key already there keeps its place and
  takes the new value.
\<close>

fun build_frames ::
  "entry list \<Rightarrow> (string \<rightharpoonup> int \<times> int) \<Rightarrow> (string \<times> json) list \<Rightarrow> error + (string \<times> json) list" where
  "build_frames [] positions frames = Inr frames"
| "build_frames (e # rest) positions frames =
     (let name = fst (splitext (fst e)) in
      case positions (fst e) of
        None \<Rightarrow> Inl (KeyError (fst e))
      | Some xy \<Rightarrow>
          (let w = int (fst (img_size (snd e)));
               h = int (snd (img_size (snd e)))
           in build_frames rest positions
                (AList.update name (frame_record (fst xy) (snd xy) w h) frames)))"

definition meta_record :: "string \<Rightarrow> int \<Rightarrow> int \<Rightarrow> json" where
  "meta_record image_filename sheet_w sheet_h =
     JObject
       [(''app'', JString ''generate_spritesheet.py''),
        (''image'', JString image_filename),
        (''size'', JObject [(''w'', JInt sheet_w), (''h'', JInt sheet_h)]),
        (''scale'', JString ''1'')]"

definition build_json ::
  "entry list \<Rightarrow> (string \<rightharpoonup> int \<times> int) \<Rightarrow> int \<Rightarrow> int \<Rightarrow> string \<Rightarrow> error + json" where
  "build_json images positions sheet_w sheet_h image_filename =
     (case build_frames images positions [] of
        Inl e \<Rightarrow> Inl e
      | Inr frames \<Rightarrow>
          Inr (JObject [(''frames'', JObject frames),
                        (''meta'', meta_record image_filename sheet_w sheet_h)]))"

subsection \<open>\<open>collect_images\<close>\<close>

text \<open>The lines the script prints.\<close>

datatype message =
    InputDirNotFound string
  | Skipping string string
  | NoImagesFound
  | Created string int int string nat

text \<open>\<open>str.lower\<close> on the letters \<open>A\<close> to \<open>Z\<close>, and \<open>str.endswith\<close>.\<close>

definition lower_char :: "char \<Rightarrow> char" where
  "lower_char c =
     (let n = (of_char c :: nat) in if 65 \<le> n \<and> n \<le> 90 then char_of (n + 32) else c)"

definition lower :: "string \<Rightarrow> string" where
  "lower s = map lower_char s"

definition endswith :: "string \<Rightarrow> string \<Rightarrow> bool" where
  "endswith s suffix =
     (length suffix \<le> length s \<and> drop (length s - length suffix) s = suffix)"

definition exts :: "string list" where
  "exts = [''.png'', ''.jpg'', ''.jpeg'', ''.webp'']"

definition has_ext :: "string \<Rightarrow> bool" where
  "has_ext f = list_ex (endswith (lower f)) exts"

text \<open>
  The loop over the sorted file names: a file that does not open is reported and
  skipped. The pair holds \<open>images\<close> and the lines printed so far.
\<close>

fun collect_loop ::
  "env \<Rightarrow> string \<Rightarrow> string list \<Rightarrow> entry list \<times> message list \<Rightarrow> entry list \<times> message list" where
  "collect_loop ev input_dir [] acc = acc"
| "collect_loop ev input_dir (fname # rest) acc =
     (let path = os_path_join input_dir fname in
      case image_open ev path of
        Inl e \<Rightarrow> collect_loop ev input_dir rest (fst acc, snd acc @ [Skipping fname e])
      | Inr img \<Rightarrow> collect_loop ev input_dir rest (fst acc @ [(fname, img)], snd acc))"

definition collect_images :: "env \<Rightarrow> string \<Rightarrow> entry list \<times> message list" where
  "collect_images ev input_dir =
     (let files = filter has_ext (listdir ev input_dir);
          files = sort files
      in collect_loop ev input_dir files ([], []))"

subsection \<open>\<open>main\<close>\<close>

record args =
  arg_input :: string
  arg_output :: string
  arg_json :: string
  arg_width :: int
  arg_padding :: int
  arg_pot :: bool

text \<open>
  How a run ends, what it printed and which files it wrote completely. An uncaught
  exception ends the interpreter with exit code 1, \<open>sys.exit(1)\<close> with 1, the end of
  \<open>main\<close> with 0.
\<close>

datatype status = Exit nat | Uncaught error | Diverged

record final =
  status :: status
  stdout :: "message list"
  image_file :: "(string \<times> sheet) option"
  json_file :: "(string \<times> json) option"


text \<open>
  The width \<open>main\<close> hands to the packer:
  \<open>max(args.width, max_img_w + 2*args.padding)\<close>; \<open>None\<close> is the \<open>ValueError\<close> of
  \<open>max\<close> on no image.
\<close>

definition effective_max_width :: "args \<Rightarrow> entry list \<Rightarrow> int option" where
  "effective_max_width a images =
     (case py_max (widths images) of
        None \<Rightarrow> None
      | Some max_img_w \<Rightarrow> Some (max (arg_width a) (max_img_w + 2 * arg_padding a)))"

text \<open>
  The last lines of \<open>main\<close>, from the call of \<open>pack_images\<close> with \<open>max_width\<close> to the
  summary line; \<open>out\<close> holds the lines printed before.
\<close>

definition pack_and_write :: "env \<Rightarrow> args \<Rightarrow> entry list \<Rightarrow> message list \<Rightarrow> int \<Rightarrow> final" where
  "pack_and_write ev a images out max_width =
     (let (positions, sheet_w, sheet_h) = pack_images images max_width (arg_padding a) in
      case create_sheet ev images positions sheet_w sheet_h (arg_output a) (0, 0, 0, 0) (arg_pot a) of
        Diverges \<Rightarrow> \<lparr>status = Diverged, stdout = out, image_file = None, json_file = None\<rparr>
      | Raises e \<Rightarrow> \<lparr>status = Uncaught e, stdout = out, image_file = None, json_file = None\<rparr>
      | Returns (saved, final_w, final_h) \<Rightarrow>
          (case build_json images positions final_w final_h (basename (arg_output a)) of
             Inl e \<Rightarrow> \<lparr>status = Uncaught e, stdout = out,
                        image_file = Some saved, json_file = None\<rparr>
           | Inr atlas \<Rightarrow>
               (case json_write ev (arg_json a) atlas of
                  Some e \<Rightarrow> \<lparr>status = Uncaught e, stdout = out,
                             image_file = Some saved, json_file = None\<rparr>
                | None \<Rightarrow>
                    \<lparr>status = Exit 0,
                     stdout = out @ [Created (arg_output a) final_w final_h (arg_json a) (length images)],
                     image_file = Some saved,
                     json_file = Some (arg_json a, atlas)\<rparr>)))"

definition main :: "env \<Rightarrow> args \<Rightarrow> final" where
  "main ev a =
     (if \<not> isdir ev (arg_input a)
      then \<lparr>status = Exit 1, stdout = [InputDirNotFound (arg_input a)],
            image_file = None, json_file = None\<rparr>
      else
        (let (images, out) = collect_images ev (arg_input a) in
         if images = []
         then \<lparr>status = Exit 1, stdout = out @ [NoImagesFound],
               image_file = None, json_file = None\<rparr>
         else
           (case effective_max_width a images of
              None \<Rightarrow> \<lparr>status = Uncaught ValueError, stdout = out,
                        image_file = None, json_file = None\<rparr>
            | Some max_width \<Rightarrow> pack_and_write ev a images out max_width)))"

subsection \<open>The notions the properties speak of\<close>

text \<open>
  The sprite a placement belongs to. \<open>positions[fname] = (x, y)\<close> overwrites, so the
  entry under a file name is the one of the last image collected under that name; the
  names of one directory are distinct, and then every image is that last one.
\<close>

definition sprite_of :: "entry list \<Rightarrow> string \<rightharpoonup> image" where
  "sprite_of images = map_of (rev images)"

text \<open>
  Two placement rectangles, expanded by the padding, intersect. A rectangle is
  \<open>(x, y, w, h)\<close>. The test is the one for the cells the packer reserves,
  \<open>[x, x + w + padding) \<times> [y, y + h + padding)\<close>; it is also the test whether
  either rectangle, grown by the padding on all four sides, meets the other one. Two
  sprites that pass it lie at least \<open>padding\<close> pixels apart along one axis, and do
  not share a pixel when the padding is not negative.
\<close>

definition overlap :: "int \<Rightarrow> int \<times> int \<times> int \<times> int \<Rightarrow> int \<times> int \<times> int \<times> int \<Rightarrow> bool" where
  "overlap padding r1 r2 =
     (case r1 of (x1, y1, w1, h1) \<Rightarrow> case r2 of (x2, y2, w2, h2) \<Rightarrow>
        x1 < x2 + w2 + padding \<and> x2 < x1 + w1 + padding \<and>
        y1 < y2 + h2 + padding \<and> y2 < y1 + h1 + padding)"

definition rect_of :: "int \<times> int \<Rightarrow> image \<Rightarrow> int \<times> int \<times> int \<times> int" where
  "rect_of xy img = (fst xy, snd xy, int (fst (img_size img)), int (snd (img_size img)))"

text \<open>The field \<open>key\<close> of a JSON object.\<close>

definition json_get :: "string \<Rightarrow> json \<Rightarrow> json option" where
  "json_get key doc = (case doc of JObject kvs \<Rightarrow> map_of kvs key | _ \<Rightarrow> None)"

text \<open>
  The shelf algorithm in the words of the specification: a cursor \<open>(x, y)\<close> and the
  current row height; an image that would exceed the maximum row width starts a new row;
  the row extent is the largest \<open>x\<close> the cursor reaches.
\<close>

fun shelf_spec ::
  "int \<Rightarrow> int \<Rightarrow> int \<Rightarrow> int \<Rightarrow> int \<Rightarrow> int \<Rightarrow> (string \<rightharpoonup> int \<times> int) \<Rightarrow> entry list
     \<Rightarrow> (string \<rightharpoonup> int \<times> int) \<times> int \<times> int" where
  "shelf_spec max_width padding x y row_h extent placed [] = (placed, extent, y + row_h + padding)"
| "shelf_spec max_width padding x y row_h extent placed (e # rest) =
     (let w = int (fst (img_size (snd e)));
          h = int (snd (img_size (snd e)));
          wrap = (x + w + padding > max_width);
          y' = (if wrap then y + (row_h + padding) else y);
          x' = (if wrap then padding else x);
          row_h' = (if wrap then 0 else row_h)
      in shelf_spec max_width padding (x' + (w + padding)) y' (max row_h' h)
           (max extent (x' + (w + padding))) (placed(fst e \<mapsto> (x', y'))) rest)"

definition largest_width :: "entry list \<Rightarrow> int" where
  "largest_width images = fold (\<lambda>e m. max m (int (fst (img_size (snd e))))) images 0"

definition pack_spec :: "entry list \<Rightarrow> int \<Rightarrow> int \<Rightarrow> (string \<rightharpoonup> int \<times> int) \<times> int \<times> int" where
  "pack_spec images max_width padding =
     (case shelf_spec max_width padding padding padding 0 padding Map.empty images of
        (placed, extent, height) \<Rightarrow>
          (placed, max extent (largest_width images + 2 * padding), height))"

subsection \<open>The loop invariant of the packer\<close>

text \<open>
  Whether the next image starts a new row, and where it is placed.
\<close>

definition wraps :: "int \<Rightarrow> int \<Rightarrow> pack_state \<Rightarrow> entry \<Rightarrow> bool" where
  "wraps max_width padding s e = (ps_x s + int (fst (img_size (snd e))) + padding > max_width)"

definition place_x :: "int \<Rightarrow> int \<Rightarrow> pack_state \<Rightarrow> entry \<Rightarrow> int" where
  "place_x max_width padding s e = (if wraps max_width padding s e then padding else ps_x s)"

definition place_y :: "int \<Rightarrow> int \<Rightarrow> pack_state \<Rightarrow> entry \<Rightarrow> int" where
  "place_y max_width padding s e =
     (if wraps max_width padding s e then ps_y s + (ps_row_height s + padding) else ps_y s)"

text \<open>
  A sprite placed at \<open>xy\<close> is either in the current row, left of the cursor and no
  taller than the row, or in a row that ended above the cursor; its padded right edge is
  within the row extent.
\<close>

definition placed_ok :: "int \<Rightarrow> pack_state \<Rightarrow> int \<times> int \<Rightarrow> image \<Rightarrow> bool" where
  "placed_ok padding s xy img =
     (let w = int (fst (img_size img)); h = int (snd (img_size img)) in
      (snd xy = ps_y s \<and> fst xy + w + padding \<le> ps_x s \<and> h \<le> ps_row_height s
         \<or> snd xy + h + padding \<le> ps_y s) \<and>
      fst xy + w + padding \<le> ps_max_row_w s \<and> padding \<le> fst xy \<and> padding \<le> snd xy)"

definition pack_inv :: "int \<Rightarrow> (string \<rightharpoonup> image) \<Rightarrow> pack_state \<Rightarrow> bool" where
  "pack_inv padding sz s =
     (0 \<le> ps_row_height s \<and> padding \<le> ps_x s \<and> padding \<le> ps_y s \<and>
      dom (ps_positions s) = dom sz \<and>
      (\<forall>n xy img. ps_positions s n = Some xy \<longrightarrow> sz n = Some img \<longrightarrow> placed_ok padding s xy img) \<and>
      (\<forall>n1 n2 xy1 xy2 img1 img2.
         n1 \<noteq> n2 \<longrightarrow> ps_positions s n1 = Some xy1 \<longrightarrow> ps_positions s n2 = Some xy2 \<longrightarrow>
         sz n1 = Some img1 \<longrightarrow> sz n2 = Some img2 \<longrightarrow>
         \<not> overlap padding (rect_of xy1 img1) (rect_of xy2 img2)))"

subsection \<open>The three images of the specification's scenario\<close>

definition scenario_images :: "entry list" where
  "scenario_images =
     [(''1.png'', \<lparr>img_size = (64, 64), img_data = []\<rparr>),
      (''2.png'', \<lparr>img_size = (128, 64), img_data = []\<rparr>),
      (''3.png'', \<lparr>img_size = (64, 128), img_data = []\<rparr>)]"

subsection \<open>What \<open>collect_images\<close> is to return\<close>

text \<open>
  The file names that pass the extension filter, sorted; what opening one of them gives:
  an entry of \<open>images\<close>, or the line that reports it as skipped.
\<close>

definition candidates :: "env \<Rightarrow> string \<Rightarrow> string list" where
  "candidates ev input_dir = sort (filter has_ext (listdir ev input_dir))"

definition opened :: "env \<Rightarrow> string \<Rightarrow> string \<Rightarrow> entry option" where
  "opened ev input_dir fname =
     (case image_open ev (os_path_join input_dir fname) of
        Inl e \<Rightarrow> None
      | Inr img \<Rightarrow> Some (fname, img))"

definition skipped :: "env \<Rightarrow> string \<Rightarrow> string \<Rightarrow> message option" where
  "skipped ev input_dir fname =
     (case image_open ev (os_path_join input_dir fname) of
        Inl e \<Rightarrow> Some (Skipping fname e)
      | Inr img \<Rightarrow> None)"

subsection \<open>How a run ends once the sheet and the atlas are composed\<close>

text \<open>
  With the sheet \<open>sh\<close> of size \<open>(final_w, final_h)\<close> and the document \<open>atlas\<close> at hand,
  the rest is up to the libraries: \<open>Image.new\<close> rejects a negative size, then the save of
  the sheet and the write of the JSON file complete or raise, in this order.
\<close>

definition library_outcome ::
  "env \<Rightarrow> args \<Rightarrow> message list \<Rightarrow> nat \<Rightarrow> int \<Rightarrow> int \<Rightarrow> sheet \<Rightarrow> json \<Rightarrow> final" where
  "library_outcome ev a out n final_w final_h sh atlas =
     (if final_w < 0 \<or> final_h < 0
      then \<lparr>status = Uncaught ValueError, stdout = out, image_file = None, json_file = None\<rparr>
      else
        (case image_save ev (arg_output a) sh of
           Some e \<Rightarrow> \<lparr>status = Uncaught e, stdout = out, image_file = None, json_file = None\<rparr>
         | None \<Rightarrow>
             (case json_write ev (arg_json a) atlas of
                Some e \<Rightarrow> \<lparr>status = Uncaught e, stdout = out,
                           image_file = Some (arg_output a, sh), json_file = None\<rparr>
              | None \<Rightarrow>
                  \<lparr>status = Exit 0,
                   stdout = out @ [Created (arg_output a) final_w final_h (arg_json a) n],
                   image_file = Some (arg_output a, sh),
                   json_file = Some (arg_json a, atlas)\<rparr>)))"

subsection \<open>Example runs\<close>

text \<open>
  The command line defaults of the script; a one-pixel image; a directory whose two
  files share the stem \<open>a\<close>; and a directory with an upper-case extension, a file that
  is no image and a file that does not decode.
\<close>

definition default_args :: args where
  "default_args =
     \<lparr>arg_input = ''jason'', arg_output = ''spritesheet.png'', arg_json = ''spritesheet.json'',
      arg_width = 2048, arg_padding = 2, arg_pot = False\<rparr>"

definition dot :: image where
  "dot = \<lparr>img_size = (1, 1), img_data = [0, 0, 0, 255]\<rparr>"

definition stem_clash_env :: env where
  "stem_clash_env =
     \<lparr>isdir = (\<lambda>d. d = ''jason''),
      listdir = (\<lambda>d. [''a.png'', ''a.jpg'']),
      image_open = (\<lambda>p. Inr dot),
      image_save = (\<lambda>p sh. None),
      json_write = (\<lambda>p doc. None)\<rparr>"

definition mixed_env :: env where
  "mixed_env =
     \<lparr>isdir = (\<lambda>d. d = ''jason''),
      listdir = (\<lambda>d. [''b.png'', ''notes.txt'', ''a.PNG'', ''bad.jpg'']),
      image_open = (\<lambda>p. if p = ''jason/bad.jpg'' then Inl ''cannot identify image file'' else Inr dot),
      image_save = (\<lambda>p sh. None),
      json_write = (\<lambda>p doc. None)\<rparr>"

text \<open>
  A directory with one image of \<open>10\<times>10\<close> pixels; and one with an image of
  \<open>101\<times>20\<close> and one of \<open>10\<times>20\<close> pixels, run with a requested width of 100 and a
  padding of \<open>-5\<close>.
\<close>

definition ten :: image where
  "ten = \<lparr>img_size = (10, 10), img_data = []\<rparr>"

definition ten_env :: env where
  "ten_env =
     \<lparr>isdir = (\<lambda>d. d = ''jason''),
      listdir = (\<lambda>d. [''a.png'']),
      image_open = (\<lambda>p. Inr ten),
      image_save = (\<lambda>p sh. None),
      json_write = (\<lambda>p doc. None)\<rparr>"

definition wide :: image where
  "wide = \<lparr>img_size = (101, 20), img_data = []\<rparr>"

definition small :: image where
  "small = \<lparr>img_size = (10, 20), img_data = []\<rparr>"

definition wide_env :: env where
  "wide_env =
     \<lparr>isdir = (\<lambda>d. d = ''jason''),
      listdir = (\<lambda>d. [''a.png'', ''b.png'']),
      image_open = (\<lambda>p. if p = ''jason/a.png'' then Inr wide else Inr small),
      image_save = (\<lambda>p sh. None),
      json_write = (\<lambda>p doc. None)\<rparr>"

definition narrow_args :: args where
  "narrow_args =
     \<lparr>arg_input = ''jason'', arg_output = ''spritesheet.png'', arg_json = ''spritesheet.json'',
      arg_width = 100, arg_padding = - 5, arg_pot = False\<rparr>"

text \<open>A directory with one image that is 3000 pixels wide.\<close>

definition big :: image where
  "big = \<lparr>img_size = (3000, 40), img_data = []\<rparr>"

definition big_env :: env where
  "big_env =
     \<lparr>isdir = (\<lambda>d. d = ''jason''),
      listdir = (\<lambda>d. [''big.png'']),
      image_open = (\<lambda>p. Inr big),
      image_save = (\<lambda>p sh. None),
      json_write = (\<lambda>p doc. None)\<rparr>"

section \<open>Properties\<close>

subsection \<open>\<open>next_power_of_two\<close> returns the least power of two that suffices\<close>

lemma npot_loop_pow:
  "k = 0 \<or> (2::int) ^ (k - 1) < n \<Longrightarrow>
   \<exists>m. k \<le> m \<and> npot_loop (2 ^ k) n = Some (2 ^ m) \<and> n \<le> 2 ^ m \<and> (m = 0 \<or> (2::int) ^ (m - 1) < n)"
proof (induction "nat (n - 2 ^ k)" arbitrary: k rule: less_induct)
  case less
  show ?case
  proof (cases "(2::int) ^ k < n")
    case True
    have dec: "nat (n - 2 ^ Suc k) < nat (n - 2 ^ k)"
      using True by simp
    have pre: "Suc k = 0 \<or> (2::int) ^ (Suc k - 1) < n"
      using True by simp
    from less.hyps [OF dec pre] obtain m where
      m: "Suc k \<le> m" "npot_loop (2 ^ Suc k) n = Some (2 ^ m)" "n \<le> 2 ^ m"
         "m = 0 \<or> (2::int) ^ (m - 1) < n"
      by blast
    have "npot_loop (2 ^ k) n = npot_loop (2 ^ Suc k) n"
      using True by (subst npot_loop.simps) (simp add: mult.commute)
    with m show ?thesis
      by (intro exI [of _ m]) simp
  next
    case False
    have "npot_loop (2 ^ k) n = Some (2 ^ k)"
      using False by (subst npot_loop.simps) simp
    with False less.prems show ?thesis
      by (intro exI [of _ k]) simp
  qed
qed

lemma next_power_of_two_char:
  "\<exists>m. next_power_of_two n = Some (2 ^ m) \<and> n \<le> 2 ^ m \<and> (m = 0 \<or> (2::int) ^ (m - 1) < n)"
  using npot_loop_pow [of 0 n] by (auto simp: next_power_of_two_def)

lemma pow2_minimal:
  assumes "m = 0 \<or> (2::int) ^ (m - 1) < n" and "n \<le> 2 ^ j"
  shows "(2::int) ^ m \<le> 2 ^ j"
proof (cases "m \<le> j")
  case True
  then show ?thesis by simp
next
  case False
  then have "j \<le> m - 1" and "m \<noteq> 0" by simp_all
  then have "(2::int) ^ j \<le> 2 ^ (m - 1)" by simp
  with assms \<open>m \<noteq> 0\<close> show ?thesis by linarith
qed

lemma next_power_of_two_least:
  "\<exists>k. next_power_of_two n = Some (2 ^ k) \<and> n \<le> 2 ^ k \<and> (\<forall>j. n \<le> 2 ^ j \<longrightarrow> (2::int) ^ k \<le> 2 ^ j)"
proof -
  obtain m where m: "next_power_of_two n = Some (2 ^ m)" "n \<le> 2 ^ m"
      "m = 0 \<or> (2::int) ^ (m - 1) < n"
    using next_power_of_two_char [of n] by blast
  have "\<forall>j. n \<le> 2 ^ j \<longrightarrow> (2::int) ^ m \<le> 2 ^ j"
    using pow2_minimal [OF m(3)] by blast
  with m show ?thesis by blast
qed

lemma next_power_of_two_fix: "next_power_of_two (2 ^ m) = Some (2 ^ m)"
proof -
  obtain k where k: "next_power_of_two (2 ^ m) = Some (2 ^ k)" "(2::int) ^ m \<le> 2 ^ k"
     "k = 0 \<or> (2::int) ^ (k - 1) < 2 ^ m"
    using next_power_of_two_char [of "2 ^ m"] by blast
  have "(2::int) ^ k \<le> 2 ^ m"
    using pow2_minimal [OF k(3), of m] by simp
  with k show ?thesis by simp
qed

subsection \<open>One step of the packer, field by field\<close>

lemma pack_step_x:
  "ps_x (pack_step mw p s e) = place_x mw p s e + (int (fst (img_size (snd e))) + p)"
  by (simp add: pack_step_def place_x_def wraps_def Let_def)

lemma pack_step_y: "ps_y (pack_step mw p s e) = place_y mw p s e"
  by (simp add: pack_step_def place_y_def wraps_def Let_def)

lemma pack_step_row_height:
  "ps_row_height (pack_step mw p s e) =
     max (if wraps mw p s e then 0 else ps_row_height s) (int (snd (img_size (snd e))))"
  by (simp add: pack_step_def wraps_def Let_def)

lemma pack_step_positions:
  "ps_positions (pack_step mw p s e) =
     (ps_positions s)(fst e \<mapsto> (place_x mw p s e, place_y mw p s e))"
  by (simp add: pack_step_def place_x_def place_y_def wraps_def Let_def)

lemma pack_step_max_row_w:
  "ps_max_row_w (pack_step mw p s e) = max (ps_max_row_w s) (ps_x (pack_step mw p s e))"
  by (simp add: pack_step_def wraps_def Let_def)

lemmas pack_step_fields =
  pack_step_x pack_step_y pack_step_row_height pack_step_positions pack_step_max_row_w

lemma overlap_sym: "overlap p r1 r2 = overlap p r2 r1"
  by (cases r1; cases r2) (auto simp: overlap_def)

lemma placed_ok_step:
  assumes "0 \<le> p" "0 \<le> ps_row_height s" "p \<le> ps_x s" "placed_ok p s xy img"
  shows "placed_ok p (pack_step mw p s e) xy img"
  using assms
  by (auto simp: placed_ok_def pack_step_fields place_x_def place_y_def Let_def)

lemma placed_ok_new:
  assumes "0 \<le> p" "0 \<le> ps_row_height s" "p \<le> ps_x s" "p \<le> ps_y s"
  shows "placed_ok p (pack_step mw p s e) (place_x mw p s e, place_y mw p s e) (snd e)"
  using assms
  by (auto simp: placed_ok_def pack_step_fields place_x_def place_y_def Let_def)

lemma placed_ok_apart:
  assumes "0 \<le> p" "0 \<le> ps_row_height s" "placed_ok p s xy img"
  shows "\<not> overlap p (rect_of xy img) (rect_of (place_x mw p s e, place_y mw p s e) (snd e))"
  using assms
  by (auto simp: placed_ok_def overlap_def rect_of_def place_x_def place_y_def Let_def)

lemma pack_inv_step:
  assumes p: "0 \<le> p" and inv: "pack_inv p sz s"
  shows "pack_inv p (sz(fst e \<mapsto> snd e)) (pack_step mw p s e)"
proof -
  let ?s = "pack_step mw p s e"
  let ?xy = "(place_x mw p s e, place_y mw p s e)"
  from inv have rh: "0 \<le> ps_row_height s" and x: "p \<le> ps_x s" and y: "p \<le> ps_y s"
    and d: "dom (ps_positions s) = dom sz"
    and ok: "\<And>n xy img. ps_positions s n = Some xy \<Longrightarrow> sz n = Some img \<Longrightarrow> placed_ok p s xy img"
    and apart: "\<And>n1 n2 xy1 xy2 img1 img2.
         n1 \<noteq> n2 \<Longrightarrow> ps_positions s n1 = Some xy1 \<Longrightarrow> ps_positions s n2 = Some xy2 \<Longrightarrow>
         sz n1 = Some img1 \<Longrightarrow> sz n2 = Some img2 \<Longrightarrow>
         \<not> overlap p (rect_of xy1 img1) (rect_of xy2 img2)"
    unfolding pack_inv_def by blast+
  have basic: "0 \<le> ps_row_height ?s \<and> p \<le> ps_x ?s \<and> p \<le> ps_y ?s"
    using p rh x y by (auto simp: pack_step_fields place_x_def place_y_def)
  have dm: "dom (ps_positions ?s) = dom (sz(fst e \<mapsto> snd e))"
    using d by (simp add: pack_step_positions)
  have ok': "placed_ok p ?s xy img"
    if "ps_positions ?s n = Some xy" "(sz(fst e \<mapsto> snd e)) n = Some img" for n xy img
  proof (cases "n = fst e")
    case True
    with that have "xy = ?xy" "img = snd e" by (simp_all add: pack_step_positions)
    then show ?thesis using placed_ok_new [OF p rh x y] by simp
  next
    case False
    with that have "ps_positions s n = Some xy" "sz n = Some img"
      by (simp_all add: pack_step_positions)
    then show ?thesis using placed_ok_step [OF p rh x] ok by blast
  qed
  have apart': "\<not> overlap p (rect_of xy1 img1) (rect_of xy2 img2)"
    if ne: "n1 \<noteq> n2" and p1: "ps_positions ?s n1 = Some xy1" and p2: "ps_positions ?s n2 = Some xy2"
      and s1: "(sz(fst e \<mapsto> snd e)) n1 = Some img1" and s2: "(sz(fst e \<mapsto> snd e)) n2 = Some img2"
    for n1 n2 xy1 xy2 img1 img2
  proof -
    consider "n1 = fst e" "n2 \<noteq> fst e" | "n2 = fst e" "n1 \<noteq> fst e" | "n1 \<noteq> fst e" "n2 \<noteq> fst e"
      using ne by blast
    then show ?thesis
    proof cases
      case 1
      with p1 p2 s1 s2 have "xy1 = ?xy" "img1 = snd e" "ps_positions s n2 = Some xy2" "sz n2 = Some img2"
        by (simp_all add: pack_step_positions)
      then show ?thesis
        using placed_ok_apart [OF p rh ok, of n2 xy2 img2 mw e] by (simp add: overlap_sym)
    next
      case 2
      with p1 p2 s1 s2 have "xy2 = ?xy" "img2 = snd e" "ps_positions s n1 = Some xy1" "sz n1 = Some img1"
        by (simp_all add: pack_step_positions)
      then show ?thesis
        using placed_ok_apart [OF p rh ok, of n1 xy1 img1 mw e] by simp
    next
      case 3
      with p1 p2 s1 s2 have "ps_positions s n1 = Some xy1" "sz n1 = Some img1"
        "ps_positions s n2 = Some xy2" "sz n2 = Some img2"
        by (simp_all add: pack_step_positions)
      then show ?thesis using apart [OF ne] by blast
    qed
  qed
  show ?thesis
    unfolding pack_inv_def using basic dm ok' apart' by blast
qed

lemma sprite_of_snoc: "sprite_of (images @ [e]) = (sprite_of images)(fst e \<mapsto> snd e)"
  by (cases e) (simp add: sprite_of_def)

lemma pack_inv_init: "0 \<le> p \<Longrightarrow> pack_inv p (sprite_of []) (pack_init p)"
  by (simp add: pack_inv_def pack_init_def sprite_of_def)

lemma pack_inv_loop:
  "0 \<le> p \<Longrightarrow> pack_inv p (sprite_of images) (foldl (pack_step mw p) (pack_init p) images)"
proof (induction images rule: rev_induct)
  case Nil
  then show ?case by (simp add: pack_inv_init)
next
  case (snoc e images)
  have "pack_inv p ((sprite_of images)(fst e \<mapsto> snd e))
          (pack_step mw p (foldl (pack_step mw p) (pack_init p) images) e)"
    using snoc by (intro pack_inv_step) simp_all
  then show ?case
    by (simp only: foldl_append foldl.simps sprite_of_snoc)
qed

lemma foldl_positions_dom:
  "dom (ps_positions (foldl (pack_step mw p) s images)) = dom (ps_positions s) \<union> fst ` set images"
  by (induction images arbitrary: s) (auto simp: pack_step_positions)

lemma pack_images_positions:
  "fst (pack_images images mw p) = ps_positions (foldl (pack_step mw p) (pack_init p) images)"
  by (simp add: pack_images_def Let_def)

lemma pack_images_dom:
  assumes "pack_images images mw p = (positions, tw, th)"
  shows "dom positions = fst ` set images"
proof -
  have "positions = ps_positions (foldl (pack_step mw p) (pack_init p) images)"
    using assms pack_images_positions [of images mw p] by simp
  then show ?thesis
    by (simp add: foldl_positions_dom pack_init_def)
qed

lemma paste_all_ok:
  "fst ` set images \<subseteq> dom positions \<Longrightarrow>
   \<exists>sh'. paste_all images positions sh = Inr sh' \<and> sheet_size sh' = sheet_size sh \<and>
     sheet_bg sh' = sheet_bg sh \<and>
     sheet_pastes sh' = sheet_pastes sh @ map (\<lambda>e. (snd e, the (positions (fst e)))) images"
proof (induction images arbitrary: sh)
  case Nil
  then show ?case by simp
next
  case (Cons e images)
  from Cons.prems obtain xy where xy: "positions (fst e) = Some xy" by auto
  from Cons.prems have "fst ` set images \<subseteq> dom positions" by simp
  from Cons.IH [OF this, of "sh\<lparr>sheet_pastes := sheet_pastes sh @ [(snd e, xy)]\<rparr>"] xy
  show ?case by auto
qed

lemma build_frames_ok:
  "fst ` set images \<subseteq> dom positions \<Longrightarrow> \<exists>fr. build_frames images positions frames = Inr fr"
proof (induction images arbitrary: frames)
  case Nil
  then show ?case by simp
next
  case (Cons e images)
  from Cons.prems obtain xy where xy: "positions (fst e) = Some xy" by auto
  from Cons.prems have "fst ` set images \<subseteq> dom positions" by simp
  from Cons.IH [OF this] xy show ?case by (simp add: Let_def)
qed

lemma paste_all_new:
  assumes "fst ` set images \<subseteq> dom positions"
  shows "\<exists>sh. paste_all images positions \<lparr>sheet_size = wh, sheet_bg = bg, sheet_pastes = []\<rparr> = Inr sh \<and>
           sheet_size sh = wh \<and> sheet_bg sh = bg \<and>
           sheet_pastes sh = map (\<lambda>e. (snd e, the (positions (fst e)))) images"
  using paste_all_ok [OF assms, of "\<lparr>sheet_size = wh, sheet_bg = bg, sheet_pastes = []\<rparr>"]
  by auto

lemma create_sheet_pot:
  assumes "fst ` set images \<subseteq> dom positions"
  shows "\<exists>sh kw kh.
          sheet_size sh = (2 ^ kw, 2 ^ kh) \<and> sheet_w \<le> 2 ^ kw \<and> sheet_h \<le> 2 ^ kh \<and>
          sheet_bg sh = bg \<and>
          sheet_pastes sh = map (\<lambda>e. (snd e, the (positions (fst e)))) images \<and>
          create_sheet ev images positions sheet_w sheet_h out bg True =
            (case image_save ev out sh of
               None \<Rightarrow> Returns ((out, sh), 2 ^ kw, 2 ^ kh)
             | Some e \<Rightarrow> Raises e)"
proof -
  obtain kw where kw: "next_power_of_two sheet_w = Some (2 ^ kw)" "sheet_w \<le> 2 ^ kw"
    using next_power_of_two_char [of sheet_w] by blast
  obtain kh where kh: "next_power_of_two sheet_h = Some (2 ^ kh)" "sheet_h \<le> 2 ^ kh"
    using next_power_of_two_char [of sheet_h] by blast
  obtain sh where sh:
    "paste_all images positions \<lparr>sheet_size = (2 ^ kw, 2 ^ kh), sheet_bg = bg, sheet_pastes = []\<rparr> = Inr sh"
    "sheet_size sh = (2 ^ kw, 2 ^ kh)" "sheet_bg sh = bg"
    "sheet_pastes sh = map (\<lambda>e. (snd e, the (positions (fst e)))) images"
    using paste_all_new [OF assms, of "(2 ^ kw, 2 ^ kh)" bg] by blast
  have "create_sheet ev images positions sheet_w sheet_h out bg True =
            (case image_save ev out sh of
               None \<Rightarrow> Returns ((out, sh), 2 ^ kw, 2 ^ kh)
             | Some e \<Rightarrow> Raises e)"
    by (simp add: create_sheet_def image_new_def kw kh sh split: option.splits)
  with kw kh sh show ?thesis by blast
qed

lemma create_sheet_plain:
  assumes "fst ` set images \<subseteq> dom positions"
  shows "\<exists>sh.
          sheet_size sh = (sheet_w, sheet_h) \<and> sheet_bg sh = bg \<and>
          sheet_pastes sh = map (\<lambda>e. (snd e, the (positions (fst e)))) images \<and>
          create_sheet ev images positions sheet_w sheet_h out bg False =
            (if sheet_w < 0 \<or> sheet_h < 0 then Raises ValueError
             else (case image_save ev out sh of
                     None \<Rightarrow> Returns ((out, sh), sheet_w, sheet_h)
                   | Some e \<Rightarrow> Raises e))"
proof -
  obtain sh where sh:
    "paste_all images positions \<lparr>sheet_size = (sheet_w, sheet_h), sheet_bg = bg, sheet_pastes = []\<rparr> = Inr sh"
    "sheet_size sh = (sheet_w, sheet_h)" "sheet_bg sh = bg"
    "sheet_pastes sh = map (\<lambda>e. (snd e, the (positions (fst e)))) images"
    using paste_all_new [OF assms, of "(sheet_w, sheet_h)" bg] by blast
  have "create_sheet ev images positions sheet_w sheet_h out bg False =
            (if sheet_w < 0 \<or> sheet_h < 0 then Raises ValueError
             else (case image_save ev out sh of
                     None \<Rightarrow> Returns ((out, sh), sheet_w, sheet_h)
                   | Some e \<Rightarrow> Raises e))"
    by (simp add: create_sheet_def image_new_def sh split: option.splits)
  with sh show ?thesis by blast
qed

text \<open>
  Both cases at once: \<open>create_sheet\<close> composes a sheet of the final size and ends as the
  libraries decide.
\<close>

lemma create_sheet_char:
  assumes "fst ` set images \<subseteq> dom positions"
  shows "\<exists>sh final_w final_h.
          sheet_size sh = (final_w, final_h) \<and> sheet_w \<le> final_w \<and> sheet_h \<le> final_h \<and>
          (if pot then (\<exists>kw kh. final_w = 2 ^ kw \<and> final_h = 2 ^ kh)
           else final_w = sheet_w \<and> final_h = sheet_h) \<and>
          sheet_bg sh = bg \<and>
          sheet_pastes sh = map (\<lambda>e. (snd e, the (positions (fst e)))) images \<and>
          create_sheet ev images positions sheet_w sheet_h out bg pot =
            (if final_w < 0 \<or> final_h < 0 then Raises ValueError
             else (case image_save ev out sh of
                     None \<Rightarrow> Returns ((out, sh), final_w, final_h)
                   | Some e \<Rightarrow> Raises e))"
proof (cases pot)
  case True
  obtain sh kw kh where c:
    "sheet_size sh = (2 ^ kw, 2 ^ kh)" "sheet_w \<le> 2 ^ kw" "sheet_h \<le> 2 ^ kh" "sheet_bg sh = bg"
    "sheet_pastes sh = map (\<lambda>e. (snd e, the (positions (fst e)))) images"
    "create_sheet ev images positions sheet_w sheet_h out bg True =
            (case image_save ev out sh of
               None \<Rightarrow> Returns ((out, sh), 2 ^ kw, 2 ^ kh)
             | Some e \<Rightarrow> Raises e)"
    using create_sheet_pot [OF assms, of sheet_w sheet_h bg ev out] by blast
  have "\<not> ((2::int) ^ kw < 0 \<or> (2::int) ^ kh < 0)" by simp
  with True c show ?thesis
    by (intro exI [of _ sh] exI [of _ "2 ^ kw"] exI [of _ "2 ^ kh"]) auto
next
  case False
  obtain sh where c:
    "sheet_size sh = (sheet_w, sheet_h)" "sheet_bg sh = bg"
    "sheet_pastes sh = map (\<lambda>e. (snd e, the (positions (fst e)))) images"
    "create_sheet ev images positions sheet_w sheet_h out bg False =
            (if sheet_w < 0 \<or> sheet_h < 0 then Raises ValueError
             else (case image_save ev out sh of
                     None \<Rightarrow> Returns ((out, sh), sheet_w, sheet_h)
                   | Some e \<Rightarrow> Raises e))"
    using create_sheet_plain [OF assms, of sheet_w sheet_h bg ev out] by blast
  with False show ?thesis
    by (intro exI [of _ sh] exI [of _ sheet_w] exI [of _ sheet_h]) simp
qed

subsection \<open>The packer keeps its invariant\<close>

lemma pack_images_inv:
  assumes "0 \<le> p" and "pack_images images mw p = (positions, tw, th)"
  shows "\<exists>s. pack_inv p (sprite_of images) s \<and> positions = ps_positions s \<and>
           tw = max (ps_max_row_w s) (py_max_default (widths images) 0 + 2 * p) \<and>
           th = ps_y s + ps_row_height s + p"
  using assms pack_inv_loop [of p images mw]
  by (intro exI [of _ "foldl (pack_step mw p) (pack_init p) images"])
     (simp add: pack_images_def Let_def)

lemma placed_ok_inside:
  assumes "0 \<le> p" "0 \<le> ps_row_height s" "placed_ok p s xy img"
  shows "0 \<le> fst xy \<and> 0 \<le> snd xy \<and>
         fst xy + int (fst (img_size img)) + p \<le> ps_max_row_w s \<and>
         snd xy + int (snd (img_size img)) + p \<le> ps_y s + ps_row_height s + p"
  using assms by (auto simp: placed_ok_def Let_def)

lemma distinct_names_inj:
  assumes "distinct (map fst images)" and "e1 \<in> set images" and "e2 \<in> set images"
    and "fst e1 = fst e2"
  shows "e1 = e2"
  using assms by (meson distinct_map inj_onD)

lemma sprite_of_distinct:
  assumes "distinct (map fst images)" and "(n, img) \<in> set images"
  shows "sprite_of images n = Some img"
  using assms by (simp add: sprite_of_def rev_map [symmetric])

subsection \<open>The scenario, evaluated\<close>

lemma scenario_packed:
  "pack_images scenario_images 256 2 =
     ([''1.png'' \<mapsto> (2, 2), ''2.png'' \<mapsto> (68, 2), ''3.png'' \<mapsto> (2, 68)], 198, 198)"
  by (simp add: scenario_images_def pack_images_def pack_step_def pack_init_def
      py_max_default_def py_max_def widths_def Let_def)

lemma scenario_sprites:
  "sprite_of scenario_images ''1.png'' = Some \<lparr>img_size = (64, 64), img_data = []\<rparr>"
  "sprite_of scenario_images ''2.png'' = Some \<lparr>img_size = (128, 64), img_data = []\<rparr>"
  "sprite_of scenario_images ''3.png'' = Some \<lparr>img_size = (64, 128), img_data = []\<rparr>"
  by (simp_all add: scenario_images_def sprite_of_def)

subsection \<open>The packer and the algorithm of the specification\<close>

lemma shelf_spec_loop:
  "shelf_spec mw p (ps_x s) (ps_y s) (ps_row_height s) (max p (ps_max_row_w s)) (ps_positions s) images =
     (let s' = foldl (pack_step mw p) s images
      in (ps_positions s', max p (ps_max_row_w s'), ps_y s' + ps_row_height s' + p))"
proof (induction images arbitrary: s)
  case Nil
  show ?case by simp
next
  case (Cons e images)
  let ?s = "pack_step mw p s e"
  have "shelf_spec mw p (ps_x s) (ps_y s) (ps_row_height s) (max p (ps_max_row_w s)) (ps_positions s) (e # images)
      = shelf_spec mw p (ps_x ?s) (ps_y ?s) (ps_row_height ?s) (max p (ps_max_row_w ?s)) (ps_positions ?s) images"
    by (simp add: pack_step_fields place_x_def place_y_def wraps_def Let_def max.assoc)
  then show ?case
    using Cons.IH [of ?s] by simp
qed

lemma foldl_max_fold:
  "foldl max a (map f xs) = fold (\<lambda>e m. max m (f e)) xs (a::int)"
  by (induction xs arbitrary: a) simp_all

lemma largest_width_eq: "largest_width images = py_max_default (widths images) 0"
proof (cases images)
  case Nil
  then show ?thesis by (simp add: largest_width_def py_max_default_def py_max_def widths_def)
next
  case (Cons e rest)
  then show ?thesis
    by (simp add: largest_width_def py_max_default_def py_max_def widths_def foldl_max_fold)
qed

lemma largest_width_nonneg: "0 \<le> largest_width images"
proof -
  have "a \<le> fold (\<lambda>e m. max m (int (fst (img_size (snd e))))) images a" for a
    by (induction images arbitrary: a) (auto intro: order_trans [OF max.cobounded1])
  from this [of 0] show ?thesis by (simp add: largest_width_def)
qed

subsection \<open>\<open>max\<close> over the image widths\<close>

lemma foldl_max_props:
  "foldl max a ys \<in> set (a # ys) \<and> (\<forall>x \<in> set (a # ys). x \<le> foldl max a (ys::int list))"
proof (induction ys arbitrary: a)
  case Nil
  show ?case by simp
next
  case (Cons y ys)
  from Cons.IH [of "max a y"] show ?case
    by (auto simp: max_def split: if_splits)
qed

lemma py_max_props:
  assumes "xs \<noteq> []"
  shows "\<exists>m. py_max xs = Some m \<and> m \<in> set xs \<and> (\<forall>x \<in> set xs. x \<le> m)"
proof (cases xs)
  case Nil
  with assms show ?thesis by simp
next
  case (Cons a ys)
  with foldl_max_props [of a ys] show ?thesis
    by (simp add: py_max_def)
qed

subsection \<open>\<open>collect_images\<close> and \<open>main\<close>\<close>

lemma collect_loop_char:
  "collect_loop ev d files acc =
     (fst acc @ List.map_filter (opened ev d) files, snd acc @ List.map_filter (skipped ev d) files)"
proof (induction files arbitrary: acc)
  case Nil
  show ?case by simp
next
  case (Cons f files)
  show ?case
    by (cases "image_open ev (os_path_join d f)")
       (simp_all add: Cons.IH opened_def skipped_def Let_def)
qed

lemma collect_images_char:
  "collect_images ev d =
     (List.map_filter (opened ev d) (candidates ev d), List.map_filter (skipped ev d) (candidates ev d))"
  by (simp add: collect_images_def candidates_def collect_loop_char Let_def)



lemma effective_max_width_Some:
  "images \<noteq> [] \<Longrightarrow> \<exists>mw. effective_max_width a images = Some mw"
  by (cases images) (simp_all add: effective_max_width_def py_max_def widths_def)

lemma effective_max_width_pot [simp]:
  "effective_max_width (a\<lparr>arg_pot := b\<rparr>) images = effective_max_width a images"
  by (simp add: effective_max_width_def split: option.splits)

lemma main_width:
  assumes "isdir ev (arg_input a)" and "collect_images ev (arg_input a) = (images, out)"
    and "images \<noteq> []" and "effective_max_width a images = Some max_width"
  shows "main ev a = pack_and_write ev a images out max_width"
  using assms by (simp add: main_def)

lemma pack_and_write_char:
  assumes pk: "pack_images images max_width (arg_padding a) = (positions, sheet_w, sheet_h)"
  shows "\<exists>sh final_w final_h frames.
           sheet_size sh = (final_w, final_h) \<and> sheet_w \<le> final_w \<and> sheet_h \<le> final_h \<and>
           (if arg_pot a then (\<exists>kw kh. final_w = 2 ^ kw \<and> final_h = 2 ^ kh)
            else final_w = sheet_w \<and> final_h = sheet_h) \<and>
           sheet_bg sh = (0, 0, 0, 0) \<and>
           sheet_pastes sh = map (\<lambda>e. (snd e, the (positions (fst e)))) images \<and>
           build_frames images positions [] = Inr frames \<and>
           pack_and_write ev a images out max_width =
             library_outcome ev a out (length images) final_w final_h sh
               (JObject [(''frames'', JObject frames),
                         (''meta'', meta_record (basename (arg_output a)) final_w final_h)])"
proof -
  have dm: "fst ` set images \<subseteq> dom positions"
    using pack_images_dom [OF pk] by simp
  obtain sh final_w final_h where c:
    "sheet_size sh = (final_w, final_h)" "sheet_w \<le> final_w" "sheet_h \<le> final_h"
    "if arg_pot a then (\<exists>kw kh. final_w = 2 ^ kw \<and> final_h = 2 ^ kh)
     else final_w = sheet_w \<and> final_h = sheet_h"
    "sheet_bg sh = (0, 0, 0, 0)"
    "sheet_pastes sh = map (\<lambda>e. (snd e, the (positions (fst e)))) images"
    and cs: "create_sheet ev images positions sheet_w sheet_h (arg_output a) (0, 0, 0, 0) (arg_pot a) =
            (if final_w < 0 \<or> final_h < 0 then Raises ValueError
             else (case image_save ev (arg_output a) sh of
                     None \<Rightarrow> Returns ((arg_output a, sh), final_w, final_h)
                   | Some e \<Rightarrow> Raises e))"
    using create_sheet_char [OF dm, of sheet_w sheet_h "arg_pot a" "(0, 0, 0, 0)" ev "arg_output a"]
    by blast
  obtain frames where fr: "build_frames images positions [] = Inr frames"
    using build_frames_ok [OF dm] by blast
  have "pack_and_write ev a images out max_width =
             library_outcome ev a out (length images) final_w final_h sh
               (JObject [(''frames'', JObject frames),
                         (''meta'', meta_record (basename (arg_output a)) final_w final_h)])"
    by (simp add: pack_and_write_def pk cs library_outcome_def build_json_def fr
        split: option.splits)
  with c fr show ?thesis by blast
qed


lemma library_outcome_done:
  "status (library_outcome ev a out n final_w final_h sh atlas) = Exit 0 \<Longrightarrow>
     library_outcome ev a out n final_w final_h sh atlas =
        \<lparr>status = Exit 0,
         stdout = out @ [Created (arg_output a) final_w final_h (arg_json a) n],
         image_file = Some (arg_output a, sh),
         json_file = Some (arg_json a, atlas)\<rparr>"
  by (auto simp: library_outcome_def split: option.splits if_splits)

lemma main_fails:
  assumes "\<not> isdir ev (arg_input a) \<or> fst (collect_images ev (arg_input a)) = []"
  shows "status (main ev a) = Exit 1 \<and> image_file (main ev a) = None \<and> json_file (main ev a) = None"
  using assms by (auto simp: main_def split: prod.splits)

lemma candidates_perm:
  assumes "mset (listdir ev' d) = mset (listdir ev d)"
  shows "candidates ev' d = candidates ev d"
proof -
  have "mset (filter has_ext (listdir ev' d)) = mset (filter has_ext (listdir ev d))"
    using assms by simp
  then show ?thesis
    unfolding candidates_def by (intro properties_for_sort) simp_all
qed

lemma map_fst_opened:
  "map fst (List.map_filter (opened ev d) fs) = filter (\<lambda>f. opened ev d f \<noteq> None) fs"
  by (induction fs) (auto simp: opened_def split: sum.splits)


lemma main_env_cong:
  assumes "isdir ev' = isdir ev" and "collect_images ev' = collect_images ev"
    and "image_save ev' = image_save ev" and "json_write ev' = json_write ev"
  shows "main ev' a = main ev a"
  unfolding main_def pack_and_write_def create_sheet_def assms ..

lemma collected_sorted: "sorted (map fst (fst (collect_images ev d)))"
proof -
  have "sorted (candidates ev d)" by (simp add: candidates_def)
  then have "sorted (filter (\<lambda>f. opened ev d f \<noteq> None) (candidates ev d))"
    by (rule sorted_wrt_filter)
  then show ?thesis
    by (simp only: collect_images_char fst_conv map_fst_opened)
qed

subsection \<open>The example runs, evaluated\<close>

lemma has_ext_simps:
  "has_ext ''a.png''" "has_ext ''a.jpg''" "has_ext ''a.PNG''" "has_ext ''b.png''" "has_ext ''bad.jpg''"
  "\<not> has_ext ''notes.txt''"
  by (simp_all add: has_ext_def exts_def endswith_def lower_def lower_char_def char_of_def bit_0)

lemma default_args_fields:
  "arg_input default_args = ''jason''" "arg_output default_args = ''spritesheet.png''"
  "arg_json default_args = ''spritesheet.json''" "arg_width default_args = 2048"
  "arg_padding default_args = 2" "arg_pot default_args = False"
  by (simp_all add: default_args_def)

lemma mixed_candidates: "candidates mixed_env d = [''a.PNG'', ''b.png'', ''bad.jpg'']"
  by (simp add: candidates_def mixed_env_def has_ext_simps)

lemma mixed_collect:
  "collect_images mixed_env ''jason'' =
     ([(''a.PNG'', dot), (''b.png'', dot)], [Skipping ''bad.jpg'' ''cannot identify image file''])"
  by (simp add: collect_images_char mixed_candidates)
     (simp add: opened_def skipped_def mixed_env_def os_path_join_def)

lemma stems: "fst (splitext ''a.png'') = ''a''"  "fst (splitext ''a.jpg'') = ''a''"
  by (simp_all add: splitext_def rfind_def)

lemma collect_clash:
  "collect_images stem_clash_env ''jason'' = ([(''a.jpg'', dot), (''a.png'', dot)], [])"
  by (simp add: collect_images_def stem_clash_env_def has_ext_simps Let_def os_path_join_def)

lemma pack_clash:
  "pack_images [(''a.jpg'', dot), (''a.png'', dot)] 2048 2 = ([''a.jpg'' \<mapsto> (2, 2), ''a.png'' \<mapsto> (5, 2)], 8, 5)"
  by (simp add: pack_images_def pack_step_def pack_init_def py_max_default_def py_max_def
      widths_def Let_def dot_def)

subsection \<open>Runs on a directory with images\<close>

lemma py_max_default_nonneg: "0 \<le> py_max_default (widths images) 0"
  using largest_width_nonneg [of images] by (simp add: largest_width_eq)

lemma pack_images_nonneg:
  assumes "0 \<le> p" and "pack_images images mw p = (positions, tw, th)"
  shows "0 \<le> tw \<and> 0 \<le> th"
proof -
  obtain s where s: "pack_inv p (sprite_of images) s"
      "tw = max (ps_max_row_w s) (py_max_default (widths images) 0 + 2 * p)"
      "th = ps_y s + ps_row_height s + p"
    using pack_images_inv [OF assms] by blast
  from s(1) have "0 \<le> ps_row_height s" "p \<le> ps_y s"
    unfolding pack_inv_def by blast+
  with assms(1) s(2,3) py_max_default_nonneg [of images] show ?thesis
    by (simp add: max_def)
qed

text \<open>
  A run on a directory that exists and holds an image that opens: everything up to the
  library calls is determined, and no \<open>KeyError\<close>, no \<open>ValueError\<close> of \<open>max\<close> and no
  endless loop can occur.
\<close>

lemma main_char:
  assumes dir: "isdir ev (arg_input a)"
    and col: "collect_images ev (arg_input a) = (images, out)"
    and ne: "images \<noteq> []"
  shows "\<exists>max_width positions sheet_w sheet_h sh final_w final_h frames.
           effective_max_width a images = Some max_width \<and>
           pack_images images max_width (arg_padding a) = (positions, sheet_w, sheet_h) \<and>
           sheet_size sh = (final_w, final_h) \<and> sheet_w \<le> final_w \<and> sheet_h \<le> final_h \<and>
           (if arg_pot a then (\<exists>kw kh. final_w = 2 ^ kw \<and> final_h = 2 ^ kh)
            else final_w = sheet_w \<and> final_h = sheet_h) \<and>
           sheet_bg sh = (0, 0, 0, 0) \<and>
           sheet_pastes sh = map (\<lambda>e. (snd e, the (positions (fst e)))) images \<and>
           build_frames images positions [] = Inr frames \<and>
           (0 \<le> arg_padding a \<longrightarrow> 0 \<le> final_w \<and> 0 \<le> final_h) \<and>
           main ev a =
             library_outcome ev a out (length images) final_w final_h sh
               (JObject [(''frames'', JObject frames),
                         (''meta'', meta_record (basename (arg_output a)) final_w final_h)])"
proof -
  obtain mw where mw: "effective_max_width a images = Some mw"
    using effective_max_width_Some [OF ne] by blast
  obtain positions sheet_w sheet_h where
    pk: "pack_images images mw (arg_padding a) = (positions, sheet_w, sheet_h)"
    by (cases "pack_images images mw (arg_padding a)") auto
  obtain sh final_w final_h frames where c:
    "sheet_size sh = (final_w, final_h)" "sheet_w \<le> final_w" "sheet_h \<le> final_h"
    "if arg_pot a then (\<exists>kw kh. final_w = 2 ^ kw \<and> final_h = 2 ^ kh)
     else final_w = sheet_w \<and> final_h = sheet_h"
    "sheet_bg sh = (0, 0, 0, 0)"
    "sheet_pastes sh = map (\<lambda>e. (snd e, the (positions (fst e)))) images"
    "build_frames images positions [] = Inr frames"
    "pack_and_write ev a images out mw =
       library_outcome ev a out (length images) final_w final_h sh
         (JObject [(''frames'', JObject frames),
                   (''meta'', meta_record (basename (arg_output a)) final_w final_h)])"
    using pack_and_write_char [OF pk, of ev out] by blast
  have nonneg: "0 \<le> final_w \<and> 0 \<le> final_h" if "0 \<le> arg_padding a"
    using pack_images_nonneg [OF that pk] c(2,3) by simp
  have "main ev a = pack_and_write ev a images out mw"
    by (rule main_width [OF dir col ne mw])
  with c(8) have run: "main ev a =
       library_outcome ev a out (length images) final_w final_h sh
         (JObject [(''frames'', JObject frames),
                   (''meta'', meta_record (basename (arg_output a)) final_w final_h)])"
    by simp
  show ?thesis
    apply (rule exI [of _ mw], rule exI [of _ positions], rule exI [of _ sheet_w])
    apply (rule exI [of _ sheet_h], rule exI [of _ sh], rule exI [of _ final_w])
    apply (rule exI [of _ final_h], rule exI [of _ frames])
    using mw pk c(1-7) nonneg run by blast
qed


lemma main_completes:
  assumes "isdir ev (arg_input a)" and "fst (collect_images ev (arg_input a)) \<noteq> []"
    and "0 \<le> arg_padding a"
    and "\<forall>sh. image_save ev (arg_output a) sh = None"
    and "\<forall>doc. json_write ev (arg_json a) doc = None"
  shows "status (main ev a) = Exit 0"
proof -
  obtain images out where col: "collect_images ev (arg_input a) = (images, out)"
    by (cases "collect_images ev (arg_input a)") auto
  with assms(2) have ne: "images \<noteq> []" by simp
  from main_char [OF assms(1) col ne] assms(3) obtain sh final_w final_h atlas where
    "0 \<le> final_w" "0 \<le> final_h"
    "main ev a = library_outcome ev a out (length images) final_w final_h sh atlas"
    by blast
  with assms(4,5) show ?thesis
    by (simp add: library_outcome_def)
qed

text \<open>Evaluating a run from the values of its stages.\<close>

lemma main_eval:
  assumes "isdir ev (arg_input a)" and "collect_images ev (arg_input a) = (images, out)"
    and "images \<noteq> []" and "effective_max_width a images = Some max_width"
    and "pack_images images max_width (arg_padding a) = (positions, sheet_w, sheet_h)"
    and "create_sheet ev images positions sheet_w sheet_h (arg_output a) (0, 0, 0, 0) (arg_pot a)
           = Returns (saved, final_w, final_h)"
    and "build_json images positions final_w final_h (basename (arg_output a)) = Inr atlas"
  shows "main ev a =
     (case json_write ev (arg_json a) atlas of
        Some e \<Rightarrow> \<lparr>status = Uncaught e, stdout = out, image_file = Some saved, json_file = None\<rparr>
      | None \<Rightarrow>
          \<lparr>status = Exit 0,
           stdout = out @ [Created (arg_output a) final_w final_h (arg_json a) (length images)],
           image_file = Some saved,
           json_file = Some (arg_json a, atlas)\<rparr>)"
  using assms by (simp add: main_def pack_and_write_def)

lemma main_eval_raises:
  assumes "isdir ev (arg_input a)" and "collect_images ev (arg_input a) = (images, out)"
    and "images \<noteq> []" and "effective_max_width a images = Some max_width"
    and "pack_images images max_width (arg_padding a) = (positions, sheet_w, sheet_h)"
    and "create_sheet ev images positions sheet_w sheet_h (arg_output a) (0, 0, 0, 0) (arg_pot a)
           = Raises e"
  shows "main ev a = \<lparr>status = Uncaught e, stdout = out, image_file = None, json_file = None\<rparr>"
  using assms by (simp add: main_def pack_and_write_def)

subsection \<open>Further example runs, evaluated\<close>

lemma default_padding_args:
  "arg_input (default_args\<lparr>arg_padding := p\<rparr>) = ''jason''"
  "arg_output (default_args\<lparr>arg_padding := p\<rparr>) = ''spritesheet.png''"
  "arg_json (default_args\<lparr>arg_padding := p\<rparr>) = ''spritesheet.json''"
  "arg_width (default_args\<lparr>arg_padding := p\<rparr>) = 2048"
  "arg_padding (default_args\<lparr>arg_padding := p\<rparr>) = p"
  "arg_pot (default_args\<lparr>arg_padding := p\<rparr>) = False"
  by (simp_all add: default_args_def)

lemma basename_default: "basename ''spritesheet.png'' = ''spritesheet.png''"
  by (simp add: basename_def rfind_def)

lemma ten_collect: "collect_images ten_env ''jason'' = ([(''a.png'', ten)], [])"
  by (simp add: collect_images_def ten_env_def has_ext_simps Let_def os_path_join_def)

lemma ten_pack:
  "pack_images [(''a.png'', ten)] 2048 (- 1) = ([''a.png'' \<mapsto> (- 1, - 1)], 8, 8)"
  by (simp add: pack_images_def pack_step_def pack_init_def py_max_default_def py_max_def
      widths_def Let_def ten_def)

lemma ten_run:
  "main ten_env (default_args\<lparr>arg_padding := - 1\<rparr>) =
     \<lparr>status = Exit 0,
      stdout = [Created ''spritesheet.png'' 8 8 ''spritesheet.json'' 1],
      image_file = Some (''spritesheet.png'',
        \<lparr>sheet_size = (8, 8), sheet_bg = (0, 0, 0, 0), sheet_pastes = [(ten, - 1, - 1)]\<rparr>),
      json_file = Some (''spritesheet.json'',
        JObject [(''frames'', JObject [(''a'', frame_record (- 1) (- 1) 10 10)]),
                 (''meta'', meta_record ''spritesheet.png'' 8 8)])\<rparr>"
proof -
  let ?a = "default_args\<lparr>arg_padding := - 1\<rparr>"
  have dir: "isdir ten_env (arg_input ?a)"
    by (simp add: default_padding_args ten_env_def)
  have col: "collect_images ten_env (arg_input ?a) = ([(''a.png'', ten)], [])"
    by (simp add: default_padding_args ten_collect)
  have ne: "[(''a.png'', ten)] \<noteq> []" by simp
  have w: "effective_max_width ?a [(''a.png'', ten)] = Some 2048"
    by (simp add: effective_max_width_def py_max_def widths_def default_padding_args ten_def)
  have pk: "pack_images [(''a.png'', ten)] 2048 (arg_padding ?a) = ([''a.png'' \<mapsto> (- 1, - 1)], 8, 8)"
    by (simp add: default_padding_args ten_pack)
  have cs: "create_sheet ten_env [(''a.png'', ten)] [''a.png'' \<mapsto> (- 1, - 1)] 8 8 (arg_output ?a)
        (0, 0, 0, 0) (arg_pot ?a)
      = Returns ((''spritesheet.png'',
          \<lparr>sheet_size = (8, 8), sheet_bg = (0, 0, 0, 0), sheet_pastes = [(ten, - 1, - 1)]\<rparr>), 8, 8)"
    by (simp add: create_sheet_def image_new_def default_padding_args ten_env_def)
  have js: "build_json [(''a.png'', ten)] [''a.png'' \<mapsto> (- 1, - 1)] 8 8 (basename (arg_output ?a))
      = Inr (JObject [(''frames'', JObject [(''a'', frame_record (- 1) (- 1) 10 10)]),
                      (''meta'', meta_record ''spritesheet.png'' 8 8)])"
    by (simp add: build_json_def stems Let_def ten_def default_padding_args basename_default)
  have jw: "json_write ten_env p doc = None" for p doc
    by (simp add: ten_env_def)
  show ?thesis
    by (simp add: main_eval [OF dir col ne w pk cs js] jw default_padding_args)
qed

lemma pack_and_write_image:
  assumes "pack_images images max_width (arg_padding a) = (positions, sheet_w, sheet_h)"
    and "create_sheet ev images positions sheet_w sheet_h (arg_output a) (0, 0, 0, 0) (arg_pot a)
           = Returns (saved, final_w, final_h)"
  shows "image_file (pack_and_write ev a images out max_width) = Some saved"
  using assms by (simp add: pack_and_write_def split: sum.splits option.splits)

lemma narrow_args_fields:
  "arg_input narrow_args = ''jason''" "arg_output narrow_args = ''spritesheet.png''"
  "arg_json narrow_args = ''spritesheet.json''" "arg_width narrow_args = 100"
  "arg_padding narrow_args = - 5" "arg_pot narrow_args = False"
  by (simp_all add: narrow_args_def)

lemma wide_collect:
  "collect_images wide_env ''jason'' = ([(''a.png'', wide), (''b.png'', small)], [])"
  by (simp add: collect_images_def wide_env_def has_ext_simps Let_def os_path_join_def)

lemma wide_pack_100:
  "pack_images [(''a.png'', wide), (''b.png'', small)] 100 (- 5)
     = ([''a.png'' \<mapsto> (- 5, - 5), ''b.png'' \<mapsto> (91, - 5)], 96, 10)"
  by (simp add: pack_images_def pack_step_def pack_init_def py_max_default_def py_max_def
      widths_def Let_def wide_def small_def)

lemma wide_pack_91:
  "pack_images [(''a.png'', wide), (''b.png'', small)] 91 (- 5)
     = ([''a.png'' \<mapsto> (- 5, - 5), ''b.png'' \<mapsto> (- 5, 10)], 91, 25)"
  by (simp add: pack_images_def pack_step_def pack_init_def py_max_default_def py_max_def
      widths_def Let_def wide_def small_def)

lemma wide_width:
  "effective_max_width narrow_args [(''a.png'', wide), (''b.png'', small)] = Some 100"
  by (simp add: effective_max_width_def py_max_def widths_def narrow_args_fields wide_def small_def)

lemma big_collect: "collect_images big_env ''jason'' = ([(''big.png'', big)], [])"
  by (simp add: collect_images_def big_env_def has_ext_def exts_def endswith_def lower_def
      lower_char_def Let_def os_path_join_def)

lemma mixed_width:
  "effective_max_width (default_args\<lparr>arg_padding := p\<rparr>) [(''a.PNG'', dot), (''b.png'', dot)]
     = Some (max 2048 (1 + 2 * p))"
  by (simp add: effective_max_width_def py_max_def widths_def default_padding_args dot_def)

lemma mixed_pack_minus5:
  "pack_images [(''a.PNG'', dot), (''b.png'', dot)] 2048 (- 5)
     = ([''a.PNG'' \<mapsto> (- 5, - 5), ''b.png'' \<mapsto> (- 9, - 5)], 0, - 9)"
  by (simp add: pack_images_def pack_step_def pack_init_def py_max_default_def py_max_def
      widths_def Let_def dot_def)


lemma mixed_minus5_run:
  "main mixed_env (default_args\<lparr>arg_padding := - 5\<rparr>) =
     \<lparr>status = Uncaught ValueError,
      stdout = [Skipping ''bad.jpg'' ''cannot identify image file''],
      image_file = None, json_file = None\<rparr>"
proof -
  let ?a = "default_args\<lparr>arg_padding := - 5\<rparr>"
  let ?imgs = "[(''a.PNG'', dot), (''b.png'', dot)]"
  have dir: "isdir mixed_env (arg_input ?a)"
    by (simp add: default_padding_args mixed_env_def)
  have col: "collect_images mixed_env (arg_input ?a)
      = (?imgs, [Skipping ''bad.jpg'' ''cannot identify image file''])"
    by (simp add: default_padding_args mixed_collect)
  have ne: "?imgs \<noteq> []" by simp
  have w: "effective_max_width ?a ?imgs = Some 2048"
    by (simp add: mixed_width)
  have pk: "pack_images ?imgs 2048 (arg_padding ?a)
      = ([''a.PNG'' \<mapsto> (- 5, - 5), ''b.png'' \<mapsto> (- 9, - 5)], 0, - 9)"
    by (simp add: default_padding_args mixed_pack_minus5)
  have cs: "create_sheet mixed_env ?imgs [''a.PNG'' \<mapsto> (- 5, - 5), ''b.png'' \<mapsto> (- 9, - 5)] 0 (- 9)
        (arg_output ?a) (0, 0, 0, 0) (arg_pot ?a) = Raises ValueError"
    by (simp add: create_sheet_def image_new_def default_padding_args)
  show ?thesis
    by (rule main_eval_raises [OF dir col ne w pk cs])
qed

lemma mixed_minus5_pot_run:
  "status (main mixed_env (default_args\<lparr>arg_padding := - 5, arg_pot := True\<rparr>)) = Exit 0 \<and>
   image_file (main mixed_env (default_args\<lparr>arg_padding := - 5, arg_pot := True\<rparr>)) =
     Some (''spritesheet.png'',
       \<lparr>sheet_size = (1, 1), sheet_bg = (0, 0, 0, 0),
        sheet_pastes = [(dot, - 5, - 5), (dot, - 9, - 5)]\<rparr>) \<and>
   json_file (main mixed_env (default_args\<lparr>arg_padding := - 5, arg_pot := True\<rparr>)) \<noteq> None"
proof -
  let ?a = "default_args\<lparr>arg_padding := - 5, arg_pot := True\<rparr>"
  let ?imgs = "[(''a.PNG'', dot), (''b.png'', dot)]"
  have f: "arg_input ?a = ''jason''" "arg_output ?a = ''spritesheet.png''" "arg_width ?a = 2048"
    "arg_padding ?a = - 5" "arg_pot ?a" "arg_json ?a = ''spritesheet.json''"
    by (simp_all add: default_args_def)
  have dir: "isdir mixed_env (arg_input ?a)"
    by (simp add: f mixed_env_def)
  have col: "collect_images mixed_env (arg_input ?a)
      = (?imgs, [Skipping ''bad.jpg'' ''cannot identify image file''])"
    by (simp add: f mixed_collect)
  have ne: "?imgs \<noteq> []" by simp
  have w: "effective_max_width ?a ?imgs = Some 2048"
    by (simp add: effective_max_width_def py_max_def widths_def f dot_def)
  have pk: "pack_images ?imgs 2048 (arg_padding ?a)
      = ([''a.PNG'' \<mapsto> (- 5, - 5), ''b.png'' \<mapsto> (- 9, - 5)], 0, - 9)"
    by (simp add: f mixed_pack_minus5)
  have np: "next_power_of_two 0 = Some 1" "next_power_of_two (- 9) = Some 1"
    by (simp_all add: next_power_of_two_def npot_loop.simps)
  have cs: "create_sheet mixed_env ?imgs [''a.PNG'' \<mapsto> (- 5, - 5), ''b.png'' \<mapsto> (- 9, - 5)] 0 (- 9)
        (arg_output ?a) (0, 0, 0, 0) (arg_pot ?a)
      = Returns ((''spritesheet.png'',
          \<lparr>sheet_size = (1, 1), sheet_bg = (0, 0, 0, 0),
           sheet_pastes = [(dot, - 5, - 5), (dot, - 9, - 5)]\<rparr>), 1, 1)"
    by (simp add: create_sheet_def image_new_def f np mixed_env_def)
  obtain atlas where js: "build_json ?imgs [''a.PNG'' \<mapsto> (- 5, - 5), ''b.png'' \<mapsto> (- 9, - 5)] 1 1
        (basename (arg_output ?a)) = Inr atlas"
    by (simp add: build_json_def Let_def)
  have jw: "json_write mixed_env p doc = None" for p doc
    by (simp add: mixed_env_def)
  show ?thesis
    by (simp add: main_eval [OF dir col ne w pk cs js] jw)
qed


section \<open>The claims\<close>

text \<open>
  C5. For every integer \<open>n\<close>, in particular every positive one,
  \<open>next_power_of_two n\<close> returns, and returns the smallest power of two that is at
  least \<open>n\<close>; a power of two is returned unchanged; and with \<open>pot\<close> set,
  \<open>create_sheet\<close> on the packer's result composes a sheet whose width and height are
  powers of two and at least the packer's dimensions, and returns them as the final
  dimensions once the sheet is saved (it neither loops nor is refused by \<open>Image.new\<close>).
\<close>

theorem next_power_of_two_correct:
  "(\<exists>k. next_power_of_two n = Some (2 ^ k) \<and> n \<le> 2 ^ k \<and>
        (\<forall>j. n \<le> 2 ^ j \<longrightarrow> (2::int) ^ k \<le> 2 ^ j)) \<and>
   next_power_of_two (2 ^ m) = Some (2 ^ m) \<and>
   (\<exists>positions sheet_w sheet_h sh kw kh.
      pack_images images max_width padding = (positions, sheet_w, sheet_h) \<and>
      sheet_size sh = (2 ^ kw, 2 ^ kh) \<and> sheet_w \<le> 2 ^ kw \<and> sheet_h \<le> 2 ^ kh \<and>
      create_sheet ev images positions sheet_w sheet_h out bg True =
        (case image_save ev out sh of
           None \<Rightarrow> Returns ((out, sh), 2 ^ kw, 2 ^ kh)
         | Some e \<Rightarrow> Raises e))"
proof -
  obtain positions sheet_w sheet_h where
    pk: "pack_images images max_width padding = (positions, sheet_w, sheet_h)"
    by (cases "pack_images images max_width padding") auto
  then have "fst ` set images \<subseteq> dom positions"
    by (simp add: pack_images_dom)
  from create_sheet_pot [OF this, of sheet_w sheet_h bg ev out] pk
  have "\<exists>positions sheet_w sheet_h sh kw kh.
      pack_images images max_width padding = (positions, sheet_w, sheet_h) \<and>
      sheet_size sh = (2 ^ kw, 2 ^ kh) \<and> sheet_w \<le> 2 ^ kw \<and> sheet_h \<le> 2 ^ kh \<and>
      create_sheet ev images positions sheet_w sheet_h out bg True =
        (case image_save ev out sh of
           None \<Rightarrow> Returns ((out, sh), 2 ^ kw, 2 ^ kh)
         | Some e \<Rightarrow> Raises e)"
    by blast
  then show ?thesis
    using next_power_of_two_least [of n] next_power_of_two_fix [of m] by blast
qed

theorem next_power_of_two_correct_witness:
  "next_power_of_two 198 = Some 256 \<and> next_power_of_two 256 = Some 256"
proof -
  from next_power_of_two_correct [of 198 8 "[]" 0 0 mixed_env "[]" "(0, 0, 0, 0)"]
  obtain k where k: "next_power_of_two 198 = Some (2 ^ k)" "(198::int) \<le> 2 ^ k"
      "\<forall>j. (198::int) \<le> 2 ^ j \<longrightarrow> (2::int) ^ k \<le> 2 ^ j"
    and fx: "next_power_of_two (2 ^ 8) = Some (2 ^ 8)"
    by blast
  have "(198::int) \<le> 2 ^ 8" by simp
  with k(3) have "(2::int) ^ k \<le> 2 ^ 8" by blast
  then have le: "k \<le> 8"
    using power_increasing_iff [of "2::int" k 8] by simp
  have "\<not> k \<le> 7"
  proof
    assume "k \<le> 7"
    then have "(2::int) ^ k \<le> 2 ^ 7"
      using power_increasing_iff [of "2::int" k 7] by simp
    with k(2) show False by simp
  qed
  with le have "k = 8" by simp
  with k(1) fx show ?thesis by simp
qed

text \<open>
  C1. For every list of images and every padding \<open>\<ge> 0\<close>, the placements that
  \<open>pack_images\<close> returns are pairwise non-overlapping: for any two entries of the
  placement map, the rectangles of the two sprites they were stored for, each expanded by
  the padding, do not intersect. When the file names are distinct, as those of one
  directory are, this holds for any two images of the list.
\<close>

theorem pack_images_no_overlap:
  assumes "0 \<le> padding"
    and "pack_images images max_width padding = (positions, total_width, total_height)"
  shows "(\<forall>n1 n2 xy1 xy2 img1 img2.
            n1 \<noteq> n2 \<longrightarrow>
            positions n1 = Some xy1 \<longrightarrow> sprite_of images n1 = Some img1 \<longrightarrow>
            positions n2 = Some xy2 \<longrightarrow> sprite_of images n2 = Some img2 \<longrightarrow>
            \<not> overlap padding (rect_of xy1 img1) (rect_of xy2 img2)) \<and>
         (distinct (map fst images) \<longrightarrow>
            (\<forall>e1 \<in> set images. \<forall>e2 \<in> set images. e1 \<noteq> e2 \<longrightarrow>
               (\<exists>xy1 xy2. positions (fst e1) = Some xy1 \<and> positions (fst e2) = Some xy2 \<and>
                  \<not> overlap padding (rect_of xy1 (snd e1)) (rect_of xy2 (snd e2)))))"
proof -
  obtain s where s: "pack_inv padding (sprite_of images) s" "positions = ps_positions s"
    using pack_images_inv [OF assms] by blast
  then have apart: "\<not> overlap padding (rect_of xy1 img1) (rect_of xy2 img2)"
    if "n1 \<noteq> n2" "positions n1 = Some xy1" "sprite_of images n1 = Some img1"
       "positions n2 = Some xy2" "sprite_of images n2 = Some img2"
    for n1 n2 xy1 xy2 img1 img2
    using that unfolding pack_inv_def by blast
  have entries: "\<exists>xy1 xy2. positions (fst e1) = Some xy1 \<and> positions (fst e2) = Some xy2 \<and>
                  \<not> overlap padding (rect_of xy1 (snd e1)) (rect_of xy2 (snd e2))"
    if d: "distinct (map fst images)" and e1: "e1 \<in> set images" and e2: "e2 \<in> set images"
      and ne: "e1 \<noteq> e2"
    for e1 e2
  proof -
    from distinct_names_inj [OF d e1 e2] ne have names: "fst e1 \<noteq> fst e2" by blast
    from e1 e2 pack_images_dom [OF assms(2)] obtain xy1 xy2 where
      xy: "positions (fst e1) = Some xy1" "positions (fst e2) = Some xy2"
      by (metis domD imageI)
    have "sprite_of images (fst e1) = Some (snd e1)" "sprite_of images (fst e2) = Some (snd e2)"
      using sprite_of_distinct [OF d] e1 e2 by simp_all
    with apart [OF names xy(1) _ xy(2)] xy show ?thesis by blast
  qed
  from apart entries show ?thesis by blast
qed

theorem pack_images_no_overlap_witness:
  "\<not> overlap 2 (2, 2, 64, 64) (68, 2, 128, 64) \<and> \<not> overlap 2 (68, 2, 128, 64) (2, 68, 64, 128)"
proof -
  have p: "(0::int) \<le> 2" by simp
  note sep = pack_images_no_overlap [OF p scenario_packed]
  have ne: "''1.png'' \<noteq> ''2.png''" by simp
  have pos:
    "[''1.png'' \<mapsto> (2, 2), ''2.png'' \<mapsto> (68, 2), ''3.png'' \<mapsto> (2::int, 68::int)] ''1.png'' = Some (2, 2)"
    "[''1.png'' \<mapsto> (2, 2), ''2.png'' \<mapsto> (68, 2), ''3.png'' \<mapsto> (2::int, 68::int)] ''2.png'' = Some (68, 2)"
    by simp_all
  have first: "\<not> overlap 2 (rect_of (2, 2) \<lparr>img_size = (64, 64), img_data = []\<rparr>)
                     (rect_of (68, 2) \<lparr>img_size = (128, 64), img_data = []\<rparr>)"
    by (rule sep [THEN conjunct1, rule_format,
          OF ne pos(1) scenario_sprites(1) pos(2) scenario_sprites(2)])
  have d: "distinct (map fst scenario_images)" by (simp add: scenario_images_def)
  have m: "(''2.png'', \<lparr>img_size = (128, 64), img_data = []\<rparr>) \<in> set scenario_images"
      "(''3.png'', \<lparr>img_size = (64, 128), img_data = []\<rparr>) \<in> set scenario_images"
    by (simp_all add: scenario_images_def)
  have diff: "(''2.png'', \<lparr>img_size = (128, 64), img_data = []\<rparr>)
      \<noteq> (''3.png'', \<lparr>img_size = (64, 128), img_data = []\<rparr>)"
    by simp
  from sep [THEN conjunct2, rule_format, OF d m(1) m(2) diff]
  have second: "\<not> overlap 2 (rect_of (68, 2) \<lparr>img_size = (128, 64), img_data = []\<rparr>)
                     (rect_of (2, 68) \<lparr>img_size = (64, 128), img_data = []\<rparr>)"
    by simp
  from first second show ?thesis by (simp add: rect_of_def)
qed

text \<open>
  C3, as the specification states it: in the scenario of three images of sizes
  \<open>64\<times>64\<close>, \<open>128\<times>64\<close> and \<open>64\<times>128\<close> with maximum width 256 and
  padding 2, the packer would return the sheet width 256. It does not.
\<close>

theorem scenario_width_counterexample:
  "fst (snd (pack_images scenario_images 256 2)) \<noteq> 256"
  by (simp add: scenario_packed)

text \<open>
  C3, amended: in that scenario the packer places image 1 at \<open>(2, 2)\<close>, image 2 at
  \<open>(68, 2)\<close> and image 3 at \<open>(2, 68)\<close>, and returns the sheet width 198, the
  extent of the widest row, and the sheet height 198.
\<close>

theorem scenario_placements:
  "(case pack_images scenario_images 256 2 of
      (positions, total_width, total_height) \<Rightarrow>
        positions ''1.png'' = Some (2, 2) \<and> positions ''2.png'' = Some (68, 2) \<and>
        positions ''3.png'' = Some (2, 68) \<and> total_width = 198 \<and> total_height = 198)"
  by (simp add: scenario_packed)

text \<open>
  C6, as the specification states it: on every valid input the sheet would contain every
  placed sprite. The command line takes any integer as padding; with \<open>--padding -1\<close>
  and one image of \<open>10\<times>10\<close> pixels the run ends with exit code 0, the sheet is
  \<open>8\<times>8\<close> and the sprite is pasted at \<open>(-1, -1)\<close>, so it ends at \<open>9 > 8\<close>.
\<close>

theorem negative_padding_sprite_outside:
  "status (main ten_env (default_args\<lparr>arg_padding := - 1\<rparr>)) = Exit 0 \<and>
   image_file (main ten_env (default_args\<lparr>arg_padding := - 1\<rparr>)) =
     Some (''spritesheet.png'',
       \<lparr>sheet_size = (8, 8), sheet_bg = (0, 0, 0, 0), sheet_pastes = [(ten, - 1, - 1)]\<rparr>) \<and>
   img_size ten = (10, 10) \<and> \<not> ((- 1::int) + 10 \<le> 8)"
  by (simp add: ten_run ten_def)

text \<open>
  C6, amended. For every padding \<open>\<ge> 0\<close>, the sheet contains every placed sprite: a
  sprite placed at \<open>(x, y)\<close> has \<open>x + width\<close> at most the sheet width and
  \<open>y + height\<close> at most the sheet height that \<open>pack_images\<close> returns (and \<open>x\<close> and
  \<open>y\<close> are not negative); when the file names are distinct this holds for every image of
  the list. \<open>create_sheet\<close>, with or without rounding to powers of two, composes a sheet
  whose dimensions are no smaller than the packer's and returns them once the sheet is
  saved.
\<close>

theorem sheet_contains_sprites:
  assumes "0 \<le> padding"
    and "pack_images images max_width padding = (positions, sheet_w, sheet_h)"
  shows "(\<forall>n x y img.
            positions n = Some (x, y) \<longrightarrow> sprite_of images n = Some img \<longrightarrow>
            0 \<le> x \<and> 0 \<le> y \<and>
            x + int (fst (img_size img)) \<le> sheet_w \<and> y + int (snd (img_size img)) \<le> sheet_h) \<and>
         (distinct (map fst images) \<longrightarrow>
            (\<forall>e \<in> set images. \<exists>x y.
               positions (fst e) = Some (x, y) \<and> 0 \<le> x \<and> 0 \<le> y \<and>
               x + int (fst (img_size (snd e))) \<le> sheet_w \<and>
               y + int (snd (img_size (snd e))) \<le> sheet_h)) \<and>
         (\<forall>pot. \<exists>sh final_w final_h.
            sheet_size sh = (final_w, final_h) \<and> sheet_w \<le> final_w \<and> sheet_h \<le> final_h \<and>
            create_sheet ev images positions sheet_w sheet_h out bg pot =
              (case image_save ev out sh of
                 None \<Rightarrow> Returns ((out, sh), final_w, final_h)
               | Some e \<Rightarrow> Raises e))"
proof -
  obtain s where s: "pack_inv padding (sprite_of images) s" "positions = ps_positions s"
      "sheet_w = max (ps_max_row_w s) (py_max_default (widths images) 0 + 2 * padding)"
      "sheet_h = ps_y s + ps_row_height s + padding"
    using pack_images_inv [OF assms] by blast
  then have rh: "0 \<le> ps_row_height s" unfolding pack_inv_def by blast
  have inside: "0 \<le> x \<and> 0 \<le> y \<and>
            x + int (fst (img_size img)) \<le> sheet_w \<and> y + int (snd (img_size img)) \<le> sheet_h"
    if "positions n = Some (x, y)" "sprite_of images n = Some img" for n x y img
  proof -
    from s(1,2) that have ok: "placed_ok padding s (x, y) img"
      unfolding pack_inv_def by blast
    from placed_ok_inside [OF assms(1) rh ok] assms(1) s(3,4) show ?thesis
      by (simp add: max_def)
  qed
  have dm: "dom positions = fst ` set images"
    by (rule pack_images_dom [OF assms(2)])
  have entries: "\<exists>x y. positions (fst e) = Some (x, y) \<and> 0 \<le> x \<and> 0 \<le> y \<and>
               x + int (fst (img_size (snd e))) \<le> sheet_w \<and>
               y + int (snd (img_size (snd e))) \<le> sheet_h"
    if d: "distinct (map fst images)" and e: "e \<in> set images" for e
  proof -
    from e dm obtain x y where xy: "positions (fst e) = Some (x, y)"
      by (metis domD imageI surj_pair)
    have "sprite_of images (fst e) = Some (snd e)"
      using sprite_of_distinct [OF d] e by simp
    from inside [OF xy this] xy show ?thesis by blast
  qed
  have sub: "fst ` set images \<subseteq> dom positions" using dm by simp
  have nonneg: "0 \<le> sheet_w" "0 \<le> sheet_h"
    using pack_images_nonneg [OF assms] by simp_all
  have sheet: "\<exists>sh final_w final_h.
            sheet_size sh = (final_w, final_h) \<and> sheet_w \<le> final_w \<and> sheet_h \<le> final_h \<and>
            create_sheet ev images positions sheet_w sheet_h out bg pot =
              (case image_save ev out sh of
                 None \<Rightarrow> Returns ((out, sh), final_w, final_h)
               | Some e \<Rightarrow> Raises e)" for pot
  proof -
    obtain sh final_w final_h where c:
      "sheet_size sh = (final_w, final_h)" "sheet_w \<le> final_w" "sheet_h \<le> final_h"
      "create_sheet ev images positions sheet_w sheet_h out bg pot =
            (if final_w < 0 \<or> final_h < 0 then Raises ValueError
             else (case image_save ev out sh of
                     None \<Rightarrow> Returns ((out, sh), final_w, final_h)
                   | Some e \<Rightarrow> Raises e))"
      using create_sheet_char [OF sub, of sheet_w sheet_h pot bg ev out] by blast
    from c(2,3) nonneg have "\<not> (final_w < 0 \<or> final_h < 0)" by simp
    with c show ?thesis
      by (intro exI [of _ sh] exI [of _ final_w] exI [of _ final_h]) simp
  qed
  from inside entries sheet show ?thesis by blast
qed

theorem sheet_contains_sprites_witness:
  "(2::int) + 64 \<le> 198 \<and> (68::int) + 128 \<le> 198 \<and>
   (\<exists>sh final_w final_h.
      create_sheet mixed_env scenario_images (fst (pack_images scenario_images 256 2)) 198 198
          ''sheet.png'' (0, 0, 0, 0) True
        = Returns ((''sheet.png'', sh), final_w, final_h) \<and>
      198 \<le> final_w \<and> 198 \<le> final_h)"
proof -
  have p: "(0::int) \<le> 2" by simp
  note inside = sheet_contains_sprites [OF p scenario_packed, of mixed_env "''sheet.png''" "(0, 0, 0, 0)"]
  have d: "distinct (map fst scenario_images)" by (simp add: scenario_images_def)
  have m: "(''3.png'', \<lparr>img_size = (64, 128), img_data = []\<rparr>) \<in> set scenario_images"
    by (simp add: scenario_images_def)
  from inside [THEN conjunct2, THEN conjunct1, rule_format, OF d m]
  have "(2::int) + 64 \<le> 198 \<and> (68::int) + 128 \<le> 198" by simp
  moreover
  have sv: "image_save mixed_env ''sheet.png'' sh = None" for sh
    by (simp add: mixed_env_def)
  from inside [THEN conjunct2, THEN conjunct2, rule_format, of True]
  have "\<exists>sh final_w final_h.
      create_sheet mixed_env scenario_images (fst (pack_images scenario_images 256 2)) 198 198
          ''sheet.png'' (0, 0, 0, 0) True
        = Returns ((''sheet.png'', sh), final_w, final_h) \<and>
      198 \<le> final_w \<and> 198 \<le> final_h"
    by (simp only: scenario_packed fst_conv sv option.case) blast
  ultimately show ?thesis by blast
qed

text \<open>
  C4. For every image sequence, maximum width and padding \<open>\<ge> 0\<close>, \<open>pack_images\<close>
  computes what the algorithm of the specification (\<open>pack_spec\<close>) computes: the cursor
  starts at \<open>(padding, padding)\<close>; a new row starts exactly when
  \<open>x + width + padding > max_width\<close>, with \<open>y\<close> advanced by the row height plus the
  padding, \<open>x\<close> reset to the padding and the row height to 0; the final width is the
  larger of the row extent and the largest image width plus twice the padding; the final
  height is \<open>y\<close> plus the row height plus the padding after the last image.
\<close>

theorem pack_images_follows_spec:
  assumes "0 \<le> padding"
  shows "pack_images images max_width padding = pack_spec images max_width padding"
proof -
  let ?s = "foldl (pack_step max_width padding) (pack_init padding) images"
  have "shelf_spec max_width padding padding padding 0 padding Map.empty images
      = (ps_positions ?s, max padding (ps_max_row_w ?s), ps_y ?s + ps_row_height ?s + padding)"
    using shelf_spec_loop [of max_width padding "pack_init padding" images] assms
    by (simp add: pack_init_def Let_def)
  moreover have "max (max padding (ps_max_row_w ?s)) (largest_width images + 2 * padding)
      = max (ps_max_row_w ?s) (largest_width images + 2 * padding)"
    using assms largest_width_nonneg [of images] by (simp add: max_def)
  ultimately show ?thesis
    by (simp add: pack_spec_def pack_images_def Let_def largest_width_eq)
qed

theorem pack_images_follows_spec_witness:
  "snd (pack_spec scenario_images 256 2) = (198, 198)"
proof -
  have "(0::int) \<le> 2" by simp
  from pack_images_follows_spec [OF this, of scenario_images 256, symmetric]
  show ?thesis by (simp add: scenario_packed)
qed

text \<open>
  C7, as the specification states it: whenever an image is wider than the requested
  maximum width, \<open>main\<close> would pack with that image's width plus twice the padding. With
  requested width 100, padding \<open>-5\<close> and images of widths 101 and 10, \<open>main\<close> packs
  with the width 100, not with \<open>101 + 2 * (-5) = 91\<close>, and the two widths give different
  sheets.
\<close>

theorem negative_padding_not_widened:
  "collect_images wide_env (arg_input narrow_args) = ([(''a.png'', wide), (''b.png'', small)], []) \<and>
   arg_width narrow_args < int (fst (img_size wide)) \<and>
   effective_max_width narrow_args [(''a.png'', wide), (''b.png'', small)] = Some 100 \<and>
   main wide_env narrow_args =
     pack_and_write wide_env narrow_args [(''a.png'', wide), (''b.png'', small)] [] 100 \<and>
   main wide_env narrow_args \<noteq>
     pack_and_write wide_env narrow_args [(''a.png'', wide), (''b.png'', small)] []
       (int (fst (img_size wide)) + 2 * arg_padding narrow_args)"
proof -
  let ?imgs = "[(''a.png'', wide), (''b.png'', small)]"
  have dir: "isdir wide_env (arg_input narrow_args)"
    by (simp add: wide_env_def narrow_args_fields)
  have col: "collect_images wide_env (arg_input narrow_args) = (?imgs, [])"
    by (simp add: narrow_args_fields wide_collect)
  have ne: "?imgs \<noteq> []" by simp
  have run: "main wide_env narrow_args = pack_and_write wide_env narrow_args ?imgs [] 100"
    by (rule main_width [OF dir col ne wide_width])
  have pk100: "pack_images ?imgs 100 (arg_padding narrow_args)
      = ([''a.png'' \<mapsto> (- 5, - 5), ''b.png'' \<mapsto> (91, - 5)], 96, 10)"
    by (simp add: narrow_args_fields wide_pack_100)
  have cs100: "create_sheet wide_env ?imgs [''a.png'' \<mapsto> (- 5, - 5), ''b.png'' \<mapsto> (91, - 5)] 96 10
        (arg_output narrow_args) (0, 0, 0, 0) (arg_pot narrow_args)
      = Returns ((''spritesheet.png'',
          \<lparr>sheet_size = (96, 10), sheet_bg = (0, 0, 0, 0),
           sheet_pastes = [(wide, - 5, - 5), (small, 91, - 5)]\<rparr>), 96, 10)"
    by (simp add: create_sheet_def image_new_def narrow_args_fields wide_env_def)
  have pk91: "pack_images ?imgs 91 (arg_padding narrow_args)
      = ([''a.png'' \<mapsto> (- 5, - 5), ''b.png'' \<mapsto> (- 5, 10)], 91, 25)"
    by (simp add: narrow_args_fields wide_pack_91)
  have cs91: "create_sheet wide_env ?imgs [''a.png'' \<mapsto> (- 5, - 5), ''b.png'' \<mapsto> (- 5, 10)] 91 25
        (arg_output narrow_args) (0, 0, 0, 0) (arg_pot narrow_args)
      = Returns ((''spritesheet.png'',
          \<lparr>sheet_size = (91, 25), sheet_bg = (0, 0, 0, 0),
           sheet_pastes = [(wide, - 5, - 5), (small, - 5, 10)]\<rparr>), 91, 25)"
    by (simp add: create_sheet_def image_new_def narrow_args_fields wide_env_def)
  have w91: "int (fst (img_size wide)) + 2 * arg_padding narrow_args = 91"
    by (simp add: wide_def narrow_args_fields)
  have "image_file (pack_and_write wide_env narrow_args ?imgs [] 100)
      \<noteq> image_file (pack_and_write wide_env narrow_args ?imgs [] 91)"
    by (simp add: pack_and_write_image [OF pk100 cs100] pack_and_write_image [OF pk91 cs91])
  then have "pack_and_write wide_env narrow_args ?imgs [] 100
      \<noteq> pack_and_write wide_env narrow_args ?imgs [] 91"
    by auto
  with run col wide_width w91 show ?thesis
    by (simp add: wide_def narrow_args_fields)
qed

text \<open>
  C7, amended. For a padding \<open>\<ge> 0\<close>: if some collected image is wider than the
  requested maximum width, the width \<open>main\<close> packs with is the width of the widest image
  plus twice the padding. For a single image of width 3000, requested width 512 and
  padding 2 that width is 3004, and the run (without \<open>--pot\<close>, the writes succeeding)
  saves a sheet of width 3004 with the image at \<open>(2, 2)\<close>.
\<close>

theorem max_width_widened:
  assumes dir: "isdir ev (arg_input a)"
    and col: "collect_images ev (arg_input a) = (images, out)"
    and p: "0 \<le> arg_padding a"
    and mem: "(n, img) \<in> set images"
    and wider: "arg_width a < int (fst (img_size img))"
  shows "(\<exists>m. m \<in> set (widths images) \<and> (\<forall>w \<in> set (widths images). w \<le> m) \<and>
            effective_max_width a images = Some (m + 2 * arg_padding a) \<and>
            main ev a = pack_and_write ev a images out (m + 2 * arg_padding a)) \<and>
         (images = [(n, img)] \<and> img_size img = (3000, h) \<and>
          arg_width a = 512 \<and> arg_padding a = 2 \<and> \<not> arg_pot a \<and>
          (\<forall>sh. image_save ev (arg_output a) sh = None) \<and>
          (\<forall>doc. json_write ev (arg_json a) doc = None) \<longrightarrow>
            effective_max_width a images = Some 3004 \<and>
            status (main ev a) = Exit 0 \<and>
            image_file (main ev a) =
              Some (arg_output a,
                \<lparr>sheet_size = (3004, int h + 4), sheet_bg = (0, 0, 0, 0),
                 sheet_pastes = [(img, 2, 2)]\<rparr>))"
proof -
  from mem have ne: "images \<noteq> []" by auto
  then have nw: "widths images \<noteq> []" by (simp add: widths_def)
  from py_max_props [OF nw] obtain m where
    mx: "py_max (widths images) = Some m" and m_in: "m \<in> set (widths images)"
    and m_max: "\<forall>w \<in> set (widths images). w \<le> m"
    by blast
  from mem have "int (fst (img_size img)) \<in> set (widths images)"
    by (force simp: widths_def)
  with m_max have "int (fst (img_size img)) \<le> m" by blast
  with p wider have "arg_width a \<le> m + 2 * arg_padding a" by simp
  then have eff: "effective_max_width a images = Some (m + 2 * arg_padding a)"
    by (simp add: effective_max_width_def mx)
  have run: "main ev a = pack_and_write ev a images out (m + 2 * arg_padding a)"
    by (rule main_width [OF dir col ne eff])
  have general: "\<exists>m. m \<in> set (widths images) \<and> (\<forall>w \<in> set (widths images). w \<le> m) \<and>
            effective_max_width a images = Some (m + 2 * arg_padding a) \<and>
            main ev a = pack_and_write ev a images out (m + 2 * arg_padding a)"
    using m_in m_max eff run by blast
  have scenario: "effective_max_width a images = Some 3004 \<and>
            status (main ev a) = Exit 0 \<and>
            image_file (main ev a) =
              Some (arg_output a,
                \<lparr>sheet_size = (3004, int h + 4), sheet_bg = (0, 0, 0, 0),
                 sheet_pastes = [(img, 2, 2)]\<rparr>)"
    if one: "images = [(n, img)]" and sz: "img_size img = (3000, h)"
      and w: "arg_width a = 512" and pd: "arg_padding a = 2" and np: "\<not> arg_pot a"
      and sv: "\<forall>sh. image_save ev (arg_output a) sh = None"
      and jw: "\<forall>doc. json_write ev (arg_json a) doc = None"
  proof -
    have e: "effective_max_width a [(n, img)] = Some 3004"
      by (simp add: effective_max_width_def py_max_def widths_def sz w pd)
    have pk: "pack_images [(n, img)] 3004 (arg_padding a) = ([n \<mapsto> (2, 2)], 3004, int h + 4)"
      by (simp add: pack_images_def pack_step_def pack_init_def py_max_default_def py_max_def
          widths_def Let_def sz pd)
    have cs: "create_sheet ev [(n, img)] [n \<mapsto> (2, 2)] 3004 (int h + 4) (arg_output a)
          (0, 0, 0, 0) (arg_pot a)
        = Returns ((arg_output a,
            \<lparr>sheet_size = (3004, int h + 4), sheet_bg = (0, 0, 0, 0),
             sheet_pastes = [(img, 2, 2)]\<rparr>), 3004, int h + 4)"
      using np sv by (simp add: create_sheet_def image_new_def)
    obtain atlas where js: "build_json [(n, img)] [n \<mapsto> (2, 2)] 3004 (int h + 4)
        (basename (arg_output a)) = Inr atlas"
      by (simp add: build_json_def Let_def)
    have col1: "collect_images ev (arg_input a) = ([(n, img)], out)"
      using col one by simp
    have "[(n, img)] \<noteq> []" by simp
    from main_eval [OF dir col1 this e pk cs js] jw e one show ?thesis
      by simp
  qed
  from general scenario show ?thesis by blast
qed

theorem max_width_widened_witness:
  "effective_max_width (default_args\<lparr>arg_width := 512\<rparr>) [(''big.png'', big)] = Some 3004 \<and>
   status (main big_env (default_args\<lparr>arg_width := 512\<rparr>)) = Exit 0 \<and>
   image_file (main big_env (default_args\<lparr>arg_width := 512\<rparr>)) =
     Some (''spritesheet.png'',
       \<lparr>sheet_size = (3004, 44), sheet_bg = (0, 0, 0, 0), sheet_pastes = [(big, 2, 2)]\<rparr>)"
proof -
  let ?a = "default_args\<lparr>arg_width := 512\<rparr>"
  have f: "arg_input ?a = ''jason''" "arg_output ?a = ''spritesheet.png''" "arg_width ?a = 512"
    "arg_padding ?a = 2" "\<not> arg_pot ?a"
    by (simp_all add: default_args_def)
  have dir: "isdir big_env (arg_input ?a)" by (simp add: f big_env_def)
  have col: "collect_images big_env (arg_input ?a) = ([(''big.png'', big)], [])"
    by (simp add: f big_collect)
  have p: "0 \<le> arg_padding ?a" by (simp add: f)
  have mem: "(''big.png'', big) \<in> set [(''big.png'', big)]" by simp
  have wider: "arg_width ?a < int (fst (img_size big))" by (simp add: f big_def)
  have sz: "img_size big = (3000, 40)" by (simp add: big_def)
  have sv: "\<forall>sh. image_save big_env (arg_output ?a) sh = None"
    and jw: "\<forall>doc. json_write big_env (arg_json ?a) doc = None"
    by (simp_all add: big_env_def)
  from max_width_widened [OF dir col p mem wider, THEN conjunct2, rule_format, of 40] sz f sv jw
  show ?thesis by simp
qed

text \<open>
  C2. Every collected sprite would have exactly one record in the \<open>frames\<close> mapping of
  the atlas. The run on a directory that holds \<open>a.jpg\<close> and \<open>a.png\<close> shows that the
  script does not achieve this: both images are collected, placed (at \<open>(2, 2)\<close> and
  \<open>(5, 2)\<close>) and pasted, and the script reports 2 frames, but \<open>build_json\<close> keys
  each record by the file name without its extension, so the atlas holds the single
  record \<open>a\<close>, that of \<open>a.png\<close>.
\<close>

theorem stem_clash_loses_a_frame:
  "main stem_clash_env default_args =
     \<lparr>status = Exit 0,
      stdout = [Created ''spritesheet.png'' 8 5 ''spritesheet.json'' 2],
      image_file = Some (''spritesheet.png'',
        \<lparr>sheet_size = (8, 5), sheet_bg = (0, 0, 0, 0), sheet_pastes = [(dot, 2, 2), (dot, 5, 2)]\<rparr>),
      json_file = Some (''spritesheet.json'',
        JObject [(''frames'', JObject [(''a'', frame_record 5 2 1 1)]),
                 (''meta'', meta_record ''spritesheet.png'' 8 5)])\<rparr>"
proof -
  have dir: "isdir stem_clash_env (arg_input default_args)"
    by (simp add: stem_clash_env_def default_args_fields)
  have col: "collect_images stem_clash_env (arg_input default_args)
      = ([(''a.jpg'', dot), (''a.png'', dot)], [])"
    by (simp add: default_args_fields collect_clash)
  have ne: "[(''a.jpg'', dot), (''a.png'', dot)] \<noteq> []" by simp
  have w: "effective_max_width default_args [(''a.jpg'', dot), (''a.png'', dot)] = Some 2048"
    by (simp add: effective_max_width_def py_max_def widths_def default_args_fields dot_def)
  have pk: "pack_images [(''a.jpg'', dot), (''a.png'', dot)] 2048 (arg_padding default_args)
      = ([''a.jpg'' \<mapsto> (2, 2), ''a.png'' \<mapsto> (5, 2)], 8, 5)"
    by (simp add: default_args_fields pack_clash)
  have sh: "create_sheet stem_clash_env [(''a.jpg'', dot), (''a.png'', dot)]
        [''a.jpg'' \<mapsto> (2, 2), ''a.png'' \<mapsto> (5, 2)]
        8 5 (arg_output default_args) (0, 0, 0, 0) (arg_pot default_args)
      = Returns ((''spritesheet.png'',
          \<lparr>sheet_size = (8, 5), sheet_bg = (0, 0, 0, 0), sheet_pastes = [(dot, 2, 2), (dot, 5, 2)]\<rparr>), 8, 5)"
    by (simp add: create_sheet_def image_new_def default_args_fields stem_clash_env_def)
  have js: "build_json [(''a.jpg'', dot), (''a.png'', dot)] [''a.jpg'' \<mapsto> (2, 2), ''a.png'' \<mapsto> (5, 2)]
        8 5 (basename (arg_output default_args))
      = Inr (JObject [(''frames'', JObject [(''a'', frame_record 5 2 1 1)]),
                      (''meta'', meta_record ''spritesheet.png'' 8 5)])"
    by (simp add: build_json_def stems Let_def dot_def default_args_fields basename_default)
  have jw: "json_write stem_clash_env p doc = None" for p doc
    by (simp add: stem_clash_env_def)
  show ?thesis
    by (simp add: main_eval [OF dir col ne w pk sh js] jw default_args_fields)
qed




text \<open>
  C9. The run is determined by the set of input files and the flags: two worlds that
  agree on which directories exist, on what every path decodes to and on which writes
  succeed, and whose directory listings hold the same names in whatever order, give the
  same run: the same lines printed, the same sheet with the same pastes, the same JSON
  document, key order included. The files are processed in sorted file name order.
\<close>

theorem run_deterministic:
  assumes "isdir ev' = isdir ev" and "image_open ev' = image_open ev"
    and "image_save ev' = image_save ev" and "json_write ev' = json_write ev"
    and "\<forall>d. mset (listdir ev' d) = mset (listdir ev d)"
  shows "main ev' a = main ev a \<and>
         collect_images ev' d = collect_images ev d \<and>
         sorted (map fst (fst (collect_images ev d)))"
proof -
  have cand: "candidates ev' d = candidates ev d" for d
    using assms(5) candidates_perm [of ev' d ev] by blast
  have op: "opened ev' = opened ev" and sk: "skipped ev' = skipped ev"
    by (simp_all add: opened_def skipped_def assms(2) fun_eq_iff)
  have "collect_images ev' d = collect_images ev d" for d
    by (simp only: collect_images_char cand op sk)
  then have col: "collect_images ev' = collect_images ev"
    by (simp add: fun_eq_iff)
  from main_env_cong [OF assms(1) col assms(3,4)] col collected_sorted [of ev d]
  show ?thesis by simp
qed

theorem run_deterministic_witness:
  "main (mixed_env\<lparr>listdir := \<lambda>d. [''bad.jpg'', ''a.PNG'', ''notes.txt'', ''b.png'']\<rparr>) default_args
     = main mixed_env default_args \<and>
   map fst (fst (collect_images mixed_env ''jason'')) = [''a.PNG'', ''b.png''] \<and>
   sorted [''a.PNG'', ''b.png'']"
proof -
  let ?ev = "mixed_env\<lparr>listdir := \<lambda>d. [''bad.jpg'', ''a.PNG'', ''notes.txt'', ''b.png'']\<rparr>"
  have 1: "isdir ?ev = isdir mixed_env" and 2: "image_open ?ev = image_open mixed_env"
    and 3: "image_save ?ev = image_save mixed_env" and 4: "json_write ?ev = json_write mixed_env"
    by simp_all
  have 5: "\<forall>d. mset (listdir ?ev d) = mset (listdir mixed_env d)"
    by (simp add: mixed_env_def)
  from run_deterministic [OF 1 2 3 4 5, of default_args "''jason''"]
  show ?thesis by (simp add: mixed_collect)
qed

text \<open>
  C10, as stated: for the same input and other flags, \<open>--pot\<close> would change nothing but
  the size. With \<open>--padding -5\<close> the run with \<open>--pot\<close> writes an atlas (the sheet is
  \<open>1\<times>1\<close>) and the run without it writes none (\<open>Image.new\<close> refuses \<open>0 \<times> -9\<close>).
\<close>

theorem pot_decides_whether_atlas_is_written:
  "json_file (main mixed_env (default_args\<lparr>arg_padding := - 5, arg_pot := True\<rparr>)) \<noteq> None \<and>
   json_file (main mixed_env (default_args\<lparr>arg_padding := - 5, arg_pot := False\<rparr>)) = None"
proof -
  have "default_args\<lparr>arg_padding := - 5, arg_pot := False\<rparr> = default_args\<lparr>arg_padding := - 5\<rparr>"
    by (simp add: default_args_def)
  with mixed_minus5_pot_run mixed_minus5_run show ?thesis by simp
qed

text \<open>
  C10, amended. Whenever the run with \<open>--pot\<close> and the run without it both end with
  exit code 0, they have written atlases with the same \<open>frames\<close> object and the same
  \<open>meta\<close> fields apart from \<open>size\<close>, and sheets with the same pastes and background;
  only the size of the sheet, recorded in \<open>meta\<close>, may differ.
\<close>

theorem pot_changes_only_size:
  assumes "status (main ev (a\<lparr>arg_pot := True\<rparr>)) = Exit 0"
    and "status (main ev (a\<lparr>arg_pot := False\<rparr>)) = Exit 0"
  shows "\<exists>frames sh1 sh0 w1 h1 w0 h0.
     json_file (main ev (a\<lparr>arg_pot := True\<rparr>)) =
       Some (arg_json a, JObject [(''frames'', JObject frames),
                                  (''meta'', meta_record (basename (arg_output a)) w1 h1)]) \<and>
     json_file (main ev (a\<lparr>arg_pot := False\<rparr>)) =
       Some (arg_json a, JObject [(''frames'', JObject frames),
                                  (''meta'', meta_record (basename (arg_output a)) w0 h0)]) \<and>
     image_file (main ev (a\<lparr>arg_pot := True\<rparr>)) = Some (arg_output a, sh1) \<and>
     image_file (main ev (a\<lparr>arg_pot := False\<rparr>)) = Some (arg_output a, sh0) \<and>
     sheet_size sh1 = (w1, h1) \<and> sheet_size sh0 = (w0, h0) \<and>
     sheet_pastes sh1 = sheet_pastes sh0 \<and> sheet_bg sh1 = sheet_bg sh0"
proof -
  let ?a1 = "a\<lparr>arg_pot := True\<rparr>" and ?a0 = "a\<lparr>arg_pot := False\<rparr>"
  have good: "\<not> (\<not> isdir ev (arg_input ?a1) \<or> fst (collect_images ev (arg_input ?a1)) = [])"
    using main_fails [of ev ?a1] assms(1) by auto
  obtain images out where col: "collect_images ev (arg_input a) = (images, out)"
    by (cases "collect_images ev (arg_input a)") auto
  with good have dir: "isdir ev (arg_input a)" and ne: "images \<noteq> []" by simp_all
  obtain mw where mw: "effective_max_width a images = Some mw"
    using effective_max_width_Some [OF ne] by blast
  obtain positions sheet_w sheet_h where
    pk: "pack_images images mw (arg_padding a) = (positions, sheet_w, sheet_h)"
    by (cases "pack_images images mw (arg_padding a)") auto
  have pk1: "pack_images images mw (arg_padding ?a1) = (positions, sheet_w, sheet_h)"
    and pk0: "pack_images images mw (arg_padding ?a0) = (positions, sheet_w, sheet_h)"
    using pk by simp_all
  have run1: "main ev ?a1 = pack_and_write ev ?a1 images out mw"
    by (rule main_width) (simp_all add: dir col ne mw)
  have run0: "main ev ?a0 = pack_and_write ev ?a0 images out mw"
    by (rule main_width) (simp_all add: dir col ne mw)
  obtain sh1 w1 h1 frames where c1:
    "sheet_size sh1 = (w1, h1)" "sheet_bg sh1 = (0, 0, 0, 0)"
    "sheet_pastes sh1 = map (\<lambda>e. (snd e, the (positions (fst e)))) images"
    "build_frames images positions [] = Inr frames"
    "pack_and_write ev ?a1 images out mw =
       library_outcome ev ?a1 out (length images) w1 h1 sh1
         (JObject [(''frames'', JObject frames),
                   (''meta'', meta_record (basename (arg_output ?a1)) w1 h1)])"
    using pack_and_write_char [OF pk1, of ev out] by blast
  obtain sh0 w0 h0 frames0 where c0:
    "sheet_size sh0 = (w0, h0)" "sheet_bg sh0 = (0, 0, 0, 0)"
    "sheet_pastes sh0 = map (\<lambda>e. (snd e, the (positions (fst e)))) images"
    "build_frames images positions [] = Inr frames0"
    "pack_and_write ev ?a0 images out mw =
       library_outcome ev ?a0 out (length images) w0 h0 sh0
         (JObject [(''frames'', JObject frames0),
                   (''meta'', meta_record (basename (arg_output ?a0)) w0 h0)])"
    using pack_and_write_char [OF pk0, of ev out] by blast
  from c1(4) c0(4) have same: "frames0 = frames" by simp
  from assms(1) run1 c1(5) have d1: "main ev ?a1 =
      \<lparr>status = Exit 0,
       stdout = out @ [Created (arg_output ?a1) w1 h1 (arg_json ?a1) (length images)],
       image_file = Some (arg_output ?a1, sh1),
       json_file = Some (arg_json ?a1,
         JObject [(''frames'', JObject frames),
                  (''meta'', meta_record (basename (arg_output ?a1)) w1 h1)])\<rparr>"
    using library_outcome_done by metis
  from assms(2) run0 c0(5) have d0: "main ev ?a0 =
      \<lparr>status = Exit 0,
       stdout = out @ [Created (arg_output ?a0) w0 h0 (arg_json ?a0) (length images)],
       image_file = Some (arg_output ?a0, sh0),
       json_file = Some (arg_json ?a0,
         JObject [(''frames'', JObject frames0),
                  (''meta'', meta_record (basename (arg_output ?a0)) w0 h0)])\<rparr>"
    using library_outcome_done by metis
  show ?thesis
    apply (rule exI [of _ frames], rule exI [of _ sh1], rule exI [of _ sh0])
    apply (rule exI [of _ w1], rule exI [of _ h1], rule exI [of _ w0], rule exI [of _ h0])
    using d1 d0 same c1(1-3) c0(1-3) by simp
qed

theorem pot_changes_only_size_witness:
  "\<exists>frames.
     map_option (json_get ''frames'' \<circ> snd) (json_file (main mixed_env (default_args\<lparr>arg_pot := True\<rparr>)))
       = Some (Some (JObject frames)) \<and>
     map_option (json_get ''frames'' \<circ> snd) (json_file (main mixed_env (default_args\<lparr>arg_pot := False\<rparr>)))
       = Some (Some (JObject frames))"
proof -
  have sv: "\<forall>sh. image_save mixed_env q sh = None" and jw: "\<forall>doc. json_write mixed_env q doc = None" for q
    by (simp_all add: mixed_env_def)
  have 1: "status (main mixed_env (default_args\<lparr>arg_pot := True\<rparr>)) = Exit 0"
    by (rule main_completes)
       (simp_all add: default_args_def mixed_collect sv jw, simp add: mixed_env_def)
  have 0: "status (main mixed_env (default_args\<lparr>arg_pot := False\<rparr>)) = Exit 0"
    by (rule main_completes)
       (simp_all add: default_args_def mixed_collect sv jw, simp add: mixed_env_def)
  from pot_changes_only_size [OF 1 0] obtain frames m1 m0 where
    "json_file (main mixed_env (default_args\<lparr>arg_pot := True\<rparr>)) =
       Some (arg_json default_args, JObject [(''frames'', JObject frames), (''meta'', m1)])"
    "json_file (main mixed_env (default_args\<lparr>arg_pot := False\<rparr>)) =
       Some (arg_json default_args, JObject [(''frames'', JObject frames), (''meta'', m0)])"
    by blast
  then show ?thesis
    by (intro exI [of _ frames]) (simp add: json_get_def)
qed

end
